theory Spec2Isabelle
  imports Main "HOL-Library.Word"
begin

section \<open>Machine types\<close>

text \<open>
  The header \<^verbatim>\<open>sm90_visitor_tma_warpspecialized.hpp\<close> computes with \<^verbatim>\<open>size_t\<close> byte counts
  and \<^verbatim>\<open>uint8_t*\<close> workspace pointers. Both are 64-bit words here: \<open>+\<close> wraps around,
  \<^verbatim>\<open>nullptr\<close> is the word \<open>0\<close>, and pointer arithmetic on \<^verbatim>\<open>uint8_t*\<close> is word addition of
  the byte offset. The tile indices \<^verbatim>\<open>epi_v, epi_m, epi_n\<close> are C \<^verbatim>\<open>int\<close>s that the visitors
  only pass on.
\<close>

type_synonym size_t = "64 word"
type_synonym uint8_ptr = "64 word"
type_synonym c_int = "32 word"

text \<open>
  Modelled from the spec: \<^verbatim>\<open>cutlass::Status\<close> is declared in \<^verbatim>\<open>cutlass/cutlass.h\<close>, which is not
  among the sources. The visitor only compares a status with \<^verbatim>\<open>Status::kSuccess\<close>, so the
  other enumerators are kept apart by a number.
\<close>

datatype Status = kSuccess | kError nat

text \<open>
  Modelled from the spec: \<^verbatim>\<open>round_nearest\<close> (\<^verbatim>\<open>cutlass/fast_math.h\<close>) is not among the sources.
  It rounds \<open>dividend\<close> up to the next multiple of \<open>divisor\<close>, computed in the unsigned
  64-bit type of the dividend. The alignment \<^verbatim>\<open>MinWorkspaceAlignment\<close>
  (\<^verbatim>\<open>cutlass/workspace.h\<close>, "a small power-of-two byte count") is not among the sources either:
  every function below that uses it takes it as its first parameter.
\<close>

definition round_nearest :: "size_t \<Rightarrow> size_t \<Rightarrow> size_t" where
  "round_nearest dividend divisor = ((dividend + divisor - 1) div divisor) * divisor"

section \<open>The operation interface\<close>

text \<open>
  Every fusion operation \<^verbatim>\<open>Op\<close> offers four static host functions. An \<^verbatim>\<open>Op\<close> template
  argument is a record of them. \<^verbatim>\<open>initialize_workspace\<close> writes device memory: it takes the
  device state and returns it with its status.
\<close>

record ('shape, 'args, 'params, 'stream, 'adapter, 'dev) Op =
  to_underlying_arguments :: "'shape \<Rightarrow> 'args \<Rightarrow> uint8_ptr \<Rightarrow> 'params"
  can_implement :: "'shape \<Rightarrow> 'args \<Rightarrow> bool"
  get_workspace_size :: "'shape \<Rightarrow> 'args \<Rightarrow> size_t"
  initialize_workspace ::
    "'shape \<Rightarrow> 'args \<Rightarrow> uint8_ptr \<Rightarrow> 'stream \<Rightarrow> 'adapter \<Rightarrow> 'dev \<Rightarrow> Status \<times> 'dev"

text \<open>
  An operation object answers the two runtime queries from its own state; both are
  \<^verbatim>\<open>const\<close> member functions without arguments.
\<close>

record OpQueries =
  is_producer_load_needed :: bool
  is_C_load_needed :: bool

text \<open>
  The \<^verbatim>\<open>struct Arguments\<close> and \<^verbatim>\<open>struct Params\<close> of the specialisations for one to four
  operations have the members \<^verbatim>\<open>op_0\<close> .. \<^verbatim>\<open>op_3\<close>.
\<close>

record 'x Members1 =
  op_0 :: 'x

record 'x Members2 = "'x Members1" +
  op_1 :: 'x

record 'x Members3 = "'x Members2" +
  op_2 :: 'x

record 'x Members4 = "'x Members3" +
  op_3 :: 'x

section \<open>Tuple algorithms of cute\<close>

text \<open>
  Modelled from the spec: \<^verbatim>\<open>cute::transform_apply\<close>, \<^verbatim>\<open>cute::detail::tapply\<close>,
  \<^verbatim>\<open>cute::apply\<close> and \<^verbatim>\<open>cute::for_each\<close> are not among the sources. A tuple is a list;
  \<open>transform_apply t a f g\<close> calls \<open>f\<close> on the paired elements of \<open>t\<close> and \<open>a\<close> in
  declared order and hands the results to \<open>g\<close>. Where the lambda \<open>f\<close> changes variables
  captured by reference, these variables are the state that \<open>mapM_st\<close> threads from one
  call to the next.
\<close>

definition transform_apply ::
  "'t list \<Rightarrow> 'a list \<Rightarrow> ('t \<Rightarrow> 'a \<Rightarrow> 'r) \<Rightarrow> ('r list \<Rightarrow> 'z) \<Rightarrow> 'z" where
  "transform_apply t a f g = g (map (\<lambda>(x, y). f x y) (zip t a))"

fun mapM_st :: "('x \<Rightarrow> 's \<Rightarrow> 'r \<times> 's) \<Rightarrow> 'x list \<Rightarrow> 's \<Rightarrow> 'r list \<times> 's" where
  "mapM_st f [] s = ([], s)"
| "mapM_st f (x # xs) s =
     (case f x s of (r, s') \<Rightarrow> (case mapM_st f xs s' of (rs, s'') \<Rightarrow> (r # rs, s'')))"

definition transform_apply_st ::
  "'t list \<Rightarrow> 'a list \<Rightarrow> ('t \<Rightarrow> 'a \<Rightarrow> 's \<Rightarrow> 'r \<times> 's) \<Rightarrow> ('r list \<Rightarrow> 's \<Rightarrow> 'z) \<Rightarrow> 's \<Rightarrow> 'z" where
  "transform_apply_st t a f g s =
     (case mapM_st (\<lambda>(x, y). f x y) (zip t a) s of (rs, s') \<Rightarrow> g rs s')"

section \<open>Sm90VisitorImplBase, primary template\<close>

definition ImplBaseN_can_implement ::
  "('shape, 'args, 'params, 'stream, 'adapter, 'dev) Op list \<Rightarrow> 'shape \<Rightarrow> 'args list \<Rightarrow> bool" where
  "ImplBaseN_can_implement ops problem_shape args =
     transform_apply ops args
       (\<lambda>op op_args. can_implement op problem_shape op_args)
       (\<lambda>implementable. foldl (\<and>) True implementable)"

text \<open>
  The lambda of \<^verbatim>\<open>to_underlying_arguments\<close> captures \<^verbatim>\<open>op_workspace\<close> by reference and
  advances it after each operation, unless it is \<^verbatim>\<open>nullptr\<close>.
\<close>

definition ImplBaseN_to_underlying_arguments ::
  "size_t \<Rightarrow> ('shape, 'args, 'params, 'stream, 'adapter, 'dev) Op list \<Rightarrow> 'shape \<Rightarrow> 'args list \<Rightarrow> uint8_ptr \<Rightarrow> 'params list" where
  "ImplBaseN_to_underlying_arguments MinWorkspaceAlignment ops problem_shape args workspace =
     transform_apply_st ops args
       (\<lambda>op op_args op_workspace.
          let ret = to_underlying_arguments op problem_shape op_args op_workspace;
              op_workspace =
                (if op_workspace \<noteq> 0
                 then op_workspace +
                      round_nearest (get_workspace_size op problem_shape op_args) MinWorkspaceAlignment
                 else op_workspace)
          in (ret, op_workspace))
       (\<lambda>op_params _. op_params)
       workspace"

definition ImplBaseN_get_workspace_size ::
  "size_t \<Rightarrow> ('shape, 'args, 'params, 'stream, 'adapter, 'dev) Op list \<Rightarrow> 'shape \<Rightarrow> 'args list \<Rightarrow> size_t" where
  "ImplBaseN_get_workspace_size MinWorkspaceAlignment ops problem_shape args =
     transform_apply ops args
       (\<lambda>op op_args.
          let op_workspace_size = get_workspace_size op problem_shape op_args
          in round_nearest op_workspace_size MinWorkspaceAlignment)
       (\<lambda>op_workspace_size. foldl (+) 0 op_workspace_size)"

text \<open>
  The lambda of \<^verbatim>\<open>initialize_workspace\<close> captures \<^verbatim>\<open>status\<close> and \<^verbatim>\<open>op_workspace\<close> by
  reference; with the device state they are the state threaded through the calls.
\<close>

definition ImplBaseN_initialize_workspace ::
  "size_t \<Rightarrow> ('shape, 'args, 'params, 'stream, 'adapter, 'dev) Op list \<Rightarrow> 'shape \<Rightarrow> 'args list \<Rightarrow> uint8_ptr \<Rightarrow> 'stream \<Rightarrow> 'adapter \<Rightarrow> 'dev
   \<Rightarrow> Status \<times> 'dev" where
  "ImplBaseN_initialize_workspace MinWorkspaceAlignment ops problem_shape args workspace stream
       cuda_adapter dev =
     transform_apply_st ops args
       (\<lambda>op op_args (status, op_workspace, dev).
          if status \<noteq> kSuccess then (status, (status, op_workspace, dev))
          else
            let (status, dev) =
                  initialize_workspace op problem_shape op_args op_workspace stream cuda_adapter dev;
                op_workspace =
                  (if op_workspace \<noteq> 0
                   then op_workspace +
                        round_nearest (get_workspace_size op problem_shape op_args) MinWorkspaceAlignment
                   else op_workspace)
            in (status, (status, op_workspace, dev)))
       (\<lambda>_ (status, _, dev). (status, dev))
       (kSuccess, workspace, dev)"

section \<open>Sm90VisitorImplBase, specialisations for one to four operations\<close>

definition ImplBase1_can_implement ::
  "('shape, 'args, 'params, 'stream, 'adapter, 'dev) Op \<Rightarrow> 'shape \<Rightarrow> 'args Members1 \<Rightarrow> bool" where
  "ImplBase1_can_implement Op0 problem_shape args =
     can_implement Op0 problem_shape (op_0 args)"

definition ImplBase2_can_implement ::
  "('shape, 'args, 'params, 'stream, 'adapter, 'dev) Op \<Rightarrow>
   ('shape, 'args, 'params, 'stream, 'adapter, 'dev) Op \<Rightarrow> 'shape \<Rightarrow> 'args Members2 \<Rightarrow> bool" where
  "ImplBase2_can_implement Op0 Op1 problem_shape args =
     (can_implement Op0 problem_shape (op_0 args) \<and>
      can_implement Op1 problem_shape (op_1 args))"

definition ImplBase3_can_implement ::
  "('shape, 'args, 'params, 'stream, 'adapter, 'dev) Op \<Rightarrow>
   ('shape, 'args, 'params, 'stream, 'adapter, 'dev) Op \<Rightarrow>
   ('shape, 'args, 'params, 'stream, 'adapter, 'dev) Op \<Rightarrow> 'shape \<Rightarrow> 'args Members3 \<Rightarrow> bool" where
  "ImplBase3_can_implement Op0 Op1 Op2 problem_shape args =
     (can_implement Op0 problem_shape (op_0 args) \<and>
      can_implement Op1 problem_shape (op_1 args) \<and>
      can_implement Op2 problem_shape (op_2 args))"

definition ImplBase4_can_implement ::
  "('shape, 'args, 'params, 'stream, 'adapter, 'dev) Op \<Rightarrow>
   ('shape, 'args, 'params, 'stream, 'adapter, 'dev) Op \<Rightarrow>
   ('shape, 'args, 'params, 'stream, 'adapter, 'dev) Op \<Rightarrow>
   ('shape, 'args, 'params, 'stream, 'adapter, 'dev) Op \<Rightarrow> 'shape \<Rightarrow> 'args Members4 \<Rightarrow> bool" where
  "ImplBase4_can_implement Op0 Op1 Op2 Op3 problem_shape args =
     (can_implement Op0 problem_shape (op_0 args) \<and>
      can_implement Op1 problem_shape (op_1 args) \<and>
      can_implement Op2 problem_shape (op_2 args) \<and>
      can_implement Op3 problem_shape (op_3 args))"

definition ImplBase1_to_underlying_arguments ::
  "('shape, 'args, 'params, 'stream, 'adapter, 'dev) Op \<Rightarrow>
   'shape \<Rightarrow> 'args Members1 \<Rightarrow> uint8_ptr \<Rightarrow> 'params Members1" where
  "ImplBase1_to_underlying_arguments Op0 problem_shape args workspace =
     \<lparr>op_0 = to_underlying_arguments Op0 problem_shape (op_0 args) workspace\<rparr>"

definition ImplBase1_get_workspace_size ::
  "size_t \<Rightarrow> ('shape, 'args, 'params, 'stream, 'adapter, 'dev) Op \<Rightarrow>
   'shape \<Rightarrow> 'args Members1 \<Rightarrow> size_t" where
  "ImplBase1_get_workspace_size MinWorkspaceAlignment Op0 problem_shape args =
     (let workspace_size = 0;
          workspace_size = workspace_size + get_workspace_size Op0 problem_shape (op_0 args);
          workspace_size = round_nearest workspace_size MinWorkspaceAlignment
      in workspace_size)"

definition ImplBase1_initialize_workspace ::
  "size_t \<Rightarrow> ('shape, 'args, 'params, 'stream, 'adapter, 'dev) Op \<Rightarrow>
   'shape \<Rightarrow> 'args Members1 \<Rightarrow> uint8_ptr \<Rightarrow> 'stream \<Rightarrow> 'adapter \<Rightarrow> 'dev \<Rightarrow> Status \<times> 'dev" where
  "ImplBase1_initialize_workspace MinWorkspaceAlignment Op0 problem_shape args workspace stream
       cuda_adapter dev =
     (let status = kSuccess;
          workspace_ptr = workspace;
          workspace_offset = 0;
          (status, dev) =
            initialize_workspace Op0 problem_shape (op_0 args)
              (workspace_ptr + workspace_offset) stream cuda_adapter dev;
          workspace_offset = workspace_offset + get_workspace_size Op0 problem_shape (op_0 args);
          workspace_offset = round_nearest workspace_offset MinWorkspaceAlignment
      in if status \<noteq> kSuccess then (status, dev)
         else
           (status, dev))"

definition ImplBase2_to_underlying_arguments ::
  "('shape, 'args, 'params, 'stream, 'adapter, 'dev) Op \<Rightarrow>
   ('shape, 'args, 'params, 'stream, 'adapter, 'dev) Op \<Rightarrow>
   'shape \<Rightarrow> 'args Members2 \<Rightarrow> uint8_ptr \<Rightarrow> 'params Members2" where
  "ImplBase2_to_underlying_arguments Op0 Op1 problem_shape args workspace =
     (let op_0_workspace_size = get_workspace_size Op0 problem_shape (op_0 args);
          op_0_workspace = workspace;
          op_1_workspace = op_0_workspace + op_0_workspace_size
      in \<lparr>op_0 = to_underlying_arguments Op0 problem_shape (op_0 args) op_0_workspace,
         op_1 = to_underlying_arguments Op1 problem_shape (op_1 args) op_1_workspace\<rparr>)"

definition ImplBase2_get_workspace_size ::
  "size_t \<Rightarrow> ('shape, 'args, 'params, 'stream, 'adapter, 'dev) Op \<Rightarrow>
   ('shape, 'args, 'params, 'stream, 'adapter, 'dev) Op \<Rightarrow>
   'shape \<Rightarrow> 'args Members2 \<Rightarrow> size_t" where
  "ImplBase2_get_workspace_size MinWorkspaceAlignment Op0 Op1 problem_shape args =
     (let workspace_size = 0;
          workspace_size = workspace_size + get_workspace_size Op0 problem_shape (op_0 args);
          workspace_size = round_nearest workspace_size MinWorkspaceAlignment;
          workspace_size = workspace_size + get_workspace_size Op1 problem_shape (op_1 args);
          workspace_size = round_nearest workspace_size MinWorkspaceAlignment
      in workspace_size)"

definition ImplBase2_initialize_workspace ::
  "size_t \<Rightarrow> ('shape, 'args, 'params, 'stream, 'adapter, 'dev) Op \<Rightarrow>
   ('shape, 'args, 'params, 'stream, 'adapter, 'dev) Op \<Rightarrow>
   'shape \<Rightarrow> 'args Members2 \<Rightarrow> uint8_ptr \<Rightarrow> 'stream \<Rightarrow> 'adapter \<Rightarrow> 'dev \<Rightarrow> Status \<times> 'dev" where
  "ImplBase2_initialize_workspace MinWorkspaceAlignment Op0 Op1 problem_shape args workspace stream
       cuda_adapter dev =
     (let status = kSuccess;
          workspace_ptr = workspace;
          workspace_offset = 0;
          (status, dev) =
            initialize_workspace Op0 problem_shape (op_0 args)
              (workspace_ptr + workspace_offset) stream cuda_adapter dev;
          workspace_offset = workspace_offset + get_workspace_size Op0 problem_shape (op_0 args);
          workspace_offset = round_nearest workspace_offset MinWorkspaceAlignment
      in if status \<noteq> kSuccess then (status, dev)
         else
           (let (status, dev) =
                  initialize_workspace Op1 problem_shape (op_1 args)
                    (workspace_ptr + workspace_offset) stream cuda_adapter dev;
                workspace_offset = workspace_offset + get_workspace_size Op1 problem_shape (op_1 args);
                workspace_offset = round_nearest workspace_offset MinWorkspaceAlignment
            in if status \<noteq> kSuccess then (status, dev)
               else
                 (status, dev)))"

definition ImplBase3_to_underlying_arguments ::
  "('shape, 'args, 'params, 'stream, 'adapter, 'dev) Op \<Rightarrow>
   ('shape, 'args, 'params, 'stream, 'adapter, 'dev) Op \<Rightarrow>
   ('shape, 'args, 'params, 'stream, 'adapter, 'dev) Op \<Rightarrow>
   'shape \<Rightarrow> 'args Members3 \<Rightarrow> uint8_ptr \<Rightarrow> 'params Members3" where
  "ImplBase3_to_underlying_arguments Op0 Op1 Op2 problem_shape args workspace =
     (let op_0_workspace_size = get_workspace_size Op0 problem_shape (op_0 args);
          op_1_workspace_size = get_workspace_size Op1 problem_shape (op_1 args);
          op_0_workspace = workspace;
          op_1_workspace = op_0_workspace + op_0_workspace_size;
          op_2_workspace = op_1_workspace + op_1_workspace_size
      in \<lparr>op_0 = to_underlying_arguments Op0 problem_shape (op_0 args) op_0_workspace,
         op_1 = to_underlying_arguments Op1 problem_shape (op_1 args) op_1_workspace,
         op_2 = to_underlying_arguments Op2 problem_shape (op_2 args) op_2_workspace\<rparr>)"

definition ImplBase3_get_workspace_size ::
  "size_t \<Rightarrow> ('shape, 'args, 'params, 'stream, 'adapter, 'dev) Op \<Rightarrow>
   ('shape, 'args, 'params, 'stream, 'adapter, 'dev) Op \<Rightarrow>
   ('shape, 'args, 'params, 'stream, 'adapter, 'dev) Op \<Rightarrow>
   'shape \<Rightarrow> 'args Members3 \<Rightarrow> size_t" where
  "ImplBase3_get_workspace_size MinWorkspaceAlignment Op0 Op1 Op2 problem_shape args =
     (let workspace_size = 0;
          workspace_size = workspace_size + get_workspace_size Op0 problem_shape (op_0 args);
          workspace_size = round_nearest workspace_size MinWorkspaceAlignment;
          workspace_size = workspace_size + get_workspace_size Op1 problem_shape (op_1 args);
          workspace_size = round_nearest workspace_size MinWorkspaceAlignment;
          workspace_size = workspace_size + get_workspace_size Op2 problem_shape (op_2 args);
          workspace_size = round_nearest workspace_size MinWorkspaceAlignment
      in workspace_size)"

definition ImplBase3_initialize_workspace ::
  "size_t \<Rightarrow> ('shape, 'args, 'params, 'stream, 'adapter, 'dev) Op \<Rightarrow>
   ('shape, 'args, 'params, 'stream, 'adapter, 'dev) Op \<Rightarrow>
   ('shape, 'args, 'params, 'stream, 'adapter, 'dev) Op \<Rightarrow>
   'shape \<Rightarrow> 'args Members3 \<Rightarrow> uint8_ptr \<Rightarrow> 'stream \<Rightarrow> 'adapter \<Rightarrow> 'dev \<Rightarrow> Status \<times> 'dev" where
  "ImplBase3_initialize_workspace MinWorkspaceAlignment Op0 Op1 Op2 problem_shape args workspace stream
       cuda_adapter dev =
     (let status = kSuccess;
          workspace_ptr = workspace;
          workspace_offset = 0;
          (status, dev) =
            initialize_workspace Op0 problem_shape (op_0 args)
              (workspace_ptr + workspace_offset) stream cuda_adapter dev;
          workspace_offset = workspace_offset + get_workspace_size Op0 problem_shape (op_0 args);
          workspace_offset = round_nearest workspace_offset MinWorkspaceAlignment
      in if status \<noteq> kSuccess then (status, dev)
         else
           (let (status, dev) =
                  initialize_workspace Op1 problem_shape (op_1 args)
                    (workspace_ptr + workspace_offset) stream cuda_adapter dev;
                workspace_offset = workspace_offset + get_workspace_size Op1 problem_shape (op_1 args);
                workspace_offset = round_nearest workspace_offset MinWorkspaceAlignment
            in if status \<noteq> kSuccess then (status, dev)
               else
                 (let (status, dev) =
                        initialize_workspace Op2 problem_shape (op_2 args)
                          (workspace_ptr + workspace_offset) stream cuda_adapter dev;
                      workspace_offset = workspace_offset + get_workspace_size Op2 problem_shape (op_2 args);
                      workspace_offset = round_nearest workspace_offset MinWorkspaceAlignment
                  in if status \<noteq> kSuccess then (status, dev)
                     else
                       (status, dev))))"

definition ImplBase4_to_underlying_arguments ::
  "('shape, 'args, 'params, 'stream, 'adapter, 'dev) Op \<Rightarrow>
   ('shape, 'args, 'params, 'stream, 'adapter, 'dev) Op \<Rightarrow>
   ('shape, 'args, 'params, 'stream, 'adapter, 'dev) Op \<Rightarrow>
   ('shape, 'args, 'params, 'stream, 'adapter, 'dev) Op \<Rightarrow>
   'shape \<Rightarrow> 'args Members4 \<Rightarrow> uint8_ptr \<Rightarrow> 'params Members4" where
  "ImplBase4_to_underlying_arguments Op0 Op1 Op2 Op3 problem_shape args workspace =
     (let op_0_workspace_size = get_workspace_size Op0 problem_shape (op_0 args);
          op_1_workspace_size = get_workspace_size Op1 problem_shape (op_1 args);
          op_2_workspace_size = get_workspace_size Op2 problem_shape (op_2 args);
          op_0_workspace = workspace;
          op_1_workspace = op_0_workspace + op_0_workspace_size;
          op_2_workspace = op_1_workspace + op_1_workspace_size;
          op_3_workspace = op_2_workspace + op_2_workspace_size
      in \<lparr>op_0 = to_underlying_arguments Op0 problem_shape (op_0 args) op_0_workspace,
         op_1 = to_underlying_arguments Op1 problem_shape (op_1 args) op_1_workspace,
         op_2 = to_underlying_arguments Op2 problem_shape (op_2 args) op_2_workspace,
         op_3 = to_underlying_arguments Op3 problem_shape (op_3 args) op_3_workspace\<rparr>)"

definition ImplBase4_get_workspace_size ::
  "size_t \<Rightarrow> ('shape, 'args, 'params, 'stream, 'adapter, 'dev) Op \<Rightarrow>
   ('shape, 'args, 'params, 'stream, 'adapter, 'dev) Op \<Rightarrow>
   ('shape, 'args, 'params, 'stream, 'adapter, 'dev) Op \<Rightarrow>
   ('shape, 'args, 'params, 'stream, 'adapter, 'dev) Op \<Rightarrow>
   'shape \<Rightarrow> 'args Members4 \<Rightarrow> size_t" where
  "ImplBase4_get_workspace_size MinWorkspaceAlignment Op0 Op1 Op2 Op3 problem_shape args =
     (let workspace_size = 0;
          workspace_size = workspace_size + get_workspace_size Op0 problem_shape (op_0 args);
          workspace_size = round_nearest workspace_size MinWorkspaceAlignment;
          workspace_size = workspace_size + get_workspace_size Op1 problem_shape (op_1 args);
          workspace_size = round_nearest workspace_size MinWorkspaceAlignment;
          workspace_size = workspace_size + get_workspace_size Op2 problem_shape (op_2 args);
          workspace_size = round_nearest workspace_size MinWorkspaceAlignment;
          workspace_size = workspace_size + get_workspace_size Op3 problem_shape (op_3 args);
          workspace_size = round_nearest workspace_size MinWorkspaceAlignment
      in workspace_size)"

definition ImplBase4_initialize_workspace ::
  "size_t \<Rightarrow> ('shape, 'args, 'params, 'stream, 'adapter, 'dev) Op \<Rightarrow>
   ('shape, 'args, 'params, 'stream, 'adapter, 'dev) Op \<Rightarrow>
   ('shape, 'args, 'params, 'stream, 'adapter, 'dev) Op \<Rightarrow>
   ('shape, 'args, 'params, 'stream, 'adapter, 'dev) Op \<Rightarrow>
   'shape \<Rightarrow> 'args Members4 \<Rightarrow> uint8_ptr \<Rightarrow> 'stream \<Rightarrow> 'adapter \<Rightarrow> 'dev \<Rightarrow> Status \<times> 'dev" where
  "ImplBase4_initialize_workspace MinWorkspaceAlignment Op0 Op1 Op2 Op3 problem_shape args workspace stream
       cuda_adapter dev =
     (let status = kSuccess;
          workspace_ptr = workspace;
          workspace_offset = 0;
          (status, dev) =
            initialize_workspace Op0 problem_shape (op_0 args)
              (workspace_ptr + workspace_offset) stream cuda_adapter dev;
          workspace_offset = workspace_offset + get_workspace_size Op0 problem_shape (op_0 args);
          workspace_offset = round_nearest workspace_offset MinWorkspaceAlignment
      in if status \<noteq> kSuccess then (status, dev)
         else
           (let (status, dev) =
                  initialize_workspace Op1 problem_shape (op_1 args)
                    (workspace_ptr + workspace_offset) stream cuda_adapter dev;
                workspace_offset = workspace_offset + get_workspace_size Op1 problem_shape (op_1 args);
                workspace_offset = round_nearest workspace_offset MinWorkspaceAlignment
            in if status \<noteq> kSuccess then (status, dev)
               else
                 (let (status, dev) =
                        initialize_workspace Op2 problem_shape (op_2 args)
                          (workspace_ptr + workspace_offset) stream cuda_adapter dev;
                      workspace_offset = workspace_offset + get_workspace_size Op2 problem_shape (op_2 args);
                      workspace_offset = round_nearest workspace_offset MinWorkspaceAlignment
                  in if status \<noteq> kSuccess then (status, dev)
                     else
                       (let (status, dev) =
                              initialize_workspace Op3 problem_shape (op_3 args)
                                (workspace_ptr + workspace_offset) stream cuda_adapter dev;
                            workspace_offset = workspace_offset + get_workspace_size Op3 problem_shape (op_3 args);
                            workspace_offset = round_nearest workspace_offset MinWorkspaceAlignment
                        in if status \<noteq> kSuccess then (status, dev)
                           else
                             (status, dev)))))"

section \<open>Sm90VisitorImplBase<Ops...>: which template the compiler takes\<close>

text \<open>
  \<^verbatim>\<open>Sm90VisitorImplBase<Ops...>\<close> names the specialisation for one, two, three or four
  operations when there are that many, and the primary template otherwise. The functions
  \<open>select_\<dots>\<close> take the operations paired with their arguments and choose as the compiler
  does; \<open>Sm90VisitorImplBase_\<dots>\<close> pair the tuple of operations with the tuple of arguments,
  which by their types have one element for each operation. The functions of the primary
  template are named \<open>ImplBaseN_\<dots>\<close>, those of the specialisations \<open>ImplBase1_\<dots>\<close> to
  \<open>ImplBase4_\<dots>\<close>.
\<close>

fun select_can_implement ::
  "'shape \<Rightarrow> (('shape, 'args, 'params, 'stream, 'adapter, 'dev) Op \<times> 'args) list \<Rightarrow> bool" where
  "select_can_implement sh [(Op0, a0)] =
     ImplBase1_can_implement Op0 sh \<lparr>op_0 = a0\<rparr>"
| "select_can_implement sh [(Op0, a0), (Op1, a1)] =
     ImplBase2_can_implement Op0 Op1 sh \<lparr>op_0 = a0, op_1 = a1\<rparr>"
| "select_can_implement sh [(Op0, a0), (Op1, a1), (Op2, a2)] =
     ImplBase3_can_implement Op0 Op1 Op2 sh \<lparr>op_0 = a0, op_1 = a1, op_2 = a2\<rparr>"
| "select_can_implement sh [(Op0, a0), (Op1, a1), (Op2, a2), (Op3, a3)] =
     ImplBase4_can_implement Op0 Op1 Op2 Op3 sh \<lparr>op_0 = a0, op_1 = a1, op_2 = a2, op_3 = a3\<rparr>"
| "select_can_implement sh oas = ImplBaseN_can_implement (map fst oas) sh (map snd oas)"

definition Sm90VisitorImplBase_can_implement ::
  "('shape, 'args, 'params, 'stream, 'adapter, 'dev) Op list \<Rightarrow> 'shape \<Rightarrow> 'args list \<Rightarrow> bool" where
  "Sm90VisitorImplBase_can_implement ops problem_shape args =
     select_can_implement problem_shape (zip ops args)"

fun select_to_underlying_arguments ::
  "size_t \<Rightarrow> 'shape \<Rightarrow> (('shape, 'args, 'params, 'stream, 'adapter, 'dev) Op \<times> 'args) list \<Rightarrow> uint8_ptr \<Rightarrow> 'params list" where
  "select_to_underlying_arguments al sh [(Op0, a0)] ws =
     (let params = ImplBase1_to_underlying_arguments Op0 sh \<lparr>op_0 = a0\<rparr> ws
      in [op_0 params])"
| "select_to_underlying_arguments al sh [(Op0, a0), (Op1, a1)] ws =
     (let params = ImplBase2_to_underlying_arguments Op0 Op1 sh \<lparr>op_0 = a0, op_1 = a1\<rparr> ws
      in [op_0 params, op_1 params])"
| "select_to_underlying_arguments al sh [(Op0, a0), (Op1, a1), (Op2, a2)] ws =
     (let params = ImplBase3_to_underlying_arguments Op0 Op1 Op2 sh \<lparr>op_0 = a0, op_1 = a1, op_2 = a2\<rparr> ws
      in [op_0 params, op_1 params, op_2 params])"
| "select_to_underlying_arguments al sh [(Op0, a0), (Op1, a1), (Op2, a2), (Op3, a3)] ws =
     (let params = ImplBase4_to_underlying_arguments Op0 Op1 Op2 Op3 sh \<lparr>op_0 = a0, op_1 = a1, op_2 = a2, op_3 = a3\<rparr> ws
      in [op_0 params, op_1 params, op_2 params, op_3 params])"
| "select_to_underlying_arguments al sh oas ws =
     ImplBaseN_to_underlying_arguments al (map fst oas) sh (map snd oas) ws"

definition Sm90VisitorImplBase_to_underlying_arguments ::
  "size_t \<Rightarrow> ('shape, 'args, 'params, 'stream, 'adapter, 'dev) Op list \<Rightarrow> 'shape \<Rightarrow> 'args list \<Rightarrow> uint8_ptr \<Rightarrow> 'params list" where
  "Sm90VisitorImplBase_to_underlying_arguments MinWorkspaceAlignment ops problem_shape args workspace =
     select_to_underlying_arguments MinWorkspaceAlignment problem_shape (zip ops args) workspace"

fun select_get_workspace_size ::
  "size_t \<Rightarrow> 'shape \<Rightarrow> (('shape, 'args, 'params, 'stream, 'adapter, 'dev) Op \<times> 'args) list \<Rightarrow> size_t" where
  "select_get_workspace_size al sh [(Op0, a0)] =
     ImplBase1_get_workspace_size al Op0 sh \<lparr>op_0 = a0\<rparr>"
| "select_get_workspace_size al sh [(Op0, a0), (Op1, a1)] =
     ImplBase2_get_workspace_size al Op0 Op1 sh \<lparr>op_0 = a0, op_1 = a1\<rparr>"
| "select_get_workspace_size al sh [(Op0, a0), (Op1, a1), (Op2, a2)] =
     ImplBase3_get_workspace_size al Op0 Op1 Op2 sh \<lparr>op_0 = a0, op_1 = a1, op_2 = a2\<rparr>"
| "select_get_workspace_size al sh [(Op0, a0), (Op1, a1), (Op2, a2), (Op3, a3)] =
     ImplBase4_get_workspace_size al Op0 Op1 Op2 Op3 sh \<lparr>op_0 = a0, op_1 = a1, op_2 = a2, op_3 = a3\<rparr>"
| "select_get_workspace_size al sh oas =
     ImplBaseN_get_workspace_size al (map fst oas) sh (map snd oas)"

definition Sm90VisitorImplBase_get_workspace_size ::
  "size_t \<Rightarrow> ('shape, 'args, 'params, 'stream, 'adapter, 'dev) Op list \<Rightarrow> 'shape \<Rightarrow> 'args list \<Rightarrow> size_t" where
  "Sm90VisitorImplBase_get_workspace_size MinWorkspaceAlignment ops problem_shape args =
     select_get_workspace_size MinWorkspaceAlignment problem_shape (zip ops args)"

fun select_initialize_workspace ::
  "size_t \<Rightarrow> 'shape \<Rightarrow> (('shape, 'args, 'params, 'stream, 'adapter, 'dev) Op \<times> 'args) list \<Rightarrow> uint8_ptr \<Rightarrow> 'stream \<Rightarrow> 'adapter \<Rightarrow> 'dev
   \<Rightarrow> Status \<times> 'dev" where
  "select_initialize_workspace al sh [(Op0, a0)] ws stream adapter dev =
     ImplBase1_initialize_workspace al Op0 sh \<lparr>op_0 = a0\<rparr> ws stream adapter dev"
| "select_initialize_workspace al sh [(Op0, a0), (Op1, a1)] ws stream adapter dev =
     ImplBase2_initialize_workspace al Op0 Op1 sh \<lparr>op_0 = a0, op_1 = a1\<rparr> ws stream adapter dev"
| "select_initialize_workspace al sh [(Op0, a0), (Op1, a1), (Op2, a2)] ws stream adapter dev =
     ImplBase3_initialize_workspace al Op0 Op1 Op2 sh \<lparr>op_0 = a0, op_1 = a1, op_2 = a2\<rparr> ws stream adapter dev"
| "select_initialize_workspace al sh [(Op0, a0), (Op1, a1), (Op2, a2), (Op3, a3)] ws stream adapter dev =
     ImplBase4_initialize_workspace al Op0 Op1 Op2 Op3 sh \<lparr>op_0 = a0, op_1 = a1, op_2 = a2, op_3 = a3\<rparr> ws stream adapter dev"
| "select_initialize_workspace al sh oas ws stream adapter dev =
     ImplBaseN_initialize_workspace al (map fst oas) sh (map snd oas) ws stream adapter dev"

definition Sm90VisitorImplBase_initialize_workspace ::
  "size_t \<Rightarrow> ('shape, 'args, 'params, 'stream, 'adapter, 'dev) Op list \<Rightarrow> 'shape \<Rightarrow> 'args list \<Rightarrow> uint8_ptr \<Rightarrow> 'stream \<Rightarrow> 'adapter \<Rightarrow> 'dev
   \<Rightarrow> Status \<times> 'dev" where
  "Sm90VisitorImplBase_initialize_workspace MinWorkspaceAlignment ops problem_shape args workspace
       stream cuda_adapter dev =
     select_initialize_workspace MinWorkspaceAlignment problem_shape (zip ops args) workspace
       stream cuda_adapter dev"

section \<open>Sm90VisitorImpl: runtime queries\<close>

text \<open>
  \<^verbatim>\<open>(false || ... || op.is_producer_load_needed())\<close> is a binary left fold over the
  operations held in \<^verbatim>\<open>ops\<close>.
\<close>

definition Sm90VisitorImpl_is_producer_load_needed :: "OpQueries list \<Rightarrow> bool" where
  "Sm90VisitorImpl_is_producer_load_needed ops =
     foldl (\<or>) False (map is_producer_load_needed ops)"

definition Sm90VisitorImpl_is_C_load_needed :: "OpQueries list \<Rightarrow> bool" where
  "Sm90VisitorImpl_is_C_load_needed ops =
     foldl (\<or>) False (map is_C_load_needed ops)"

section \<open>Consumer store callbacks and the visitors\<close>

text \<open>
  The callbacks object of an operation has a \<^verbatim>\<open>visit\<close> member that takes the accumulator
  fragment, the three indices and the fragments of its inputs (a parameter pack, here a list)
  and returns an \<^verbatim>\<open>Array\<close>. \<^verbatim>\<open>visit\<close> is not \<^verbatim>\<open>const\<close>: it may change what the callbacks
  hold (a reduction accumulates there), so it takes and returns the state of the thread.
\<close>

record ('frg, 'st) Callbacks =
  visit :: "'frg \<Rightarrow> c_int \<Rightarrow> c_int \<Rightarrow> c_int \<Rightarrow> 'frg list \<Rightarrow> 'st \<Rightarrow> 'frg \<times> 'st"

text \<open>
  Modelled from the spec: \<open>tapply t f g seq\<close> calls \<open>f\<close> on the elements of \<open>t\<close> selected by
  \<open>seq\<close>, in the order of \<open>seq\<close>, and hands the results to \<open>g\<close>; \<open>tapply3\<close> does so over three
  tuples, the third of which is passed by reference and is therefore given to \<open>f\<close> as its
  index; \<open>apply_seq t f seq\<close> calls \<open>f\<close> with the selected elements as its argument pack;
  \<open>for_each\<close> calls \<open>f\<close> on every element in order.
\<close>

definition make_seq :: "nat \<Rightarrow> nat list" where
  "make_seq n = [0..<n]"

definition tapply ::
  "'t list \<Rightarrow> ('t \<Rightarrow> 's \<Rightarrow> 'r \<times> 's) \<Rightarrow> ('r list \<Rightarrow> 's \<Rightarrow> 'z) \<Rightarrow> nat list \<Rightarrow> 's \<Rightarrow> 'z" where
  "tapply t f g seq s = (case mapM_st f (map (\<lambda>I. t ! I) seq) s of (rs, s') \<Rightarrow> g rs s')"

definition tapply3 ::
  "'a list \<Rightarrow> 'b list \<Rightarrow> ('a \<Rightarrow> 'b \<Rightarrow> nat \<Rightarrow> 's \<Rightarrow> 'r \<times> 's) \<Rightarrow> ('r list \<Rightarrow> 's \<Rightarrow> 'z) \<Rightarrow> nat list
   \<Rightarrow> 's \<Rightarrow> 'z" where
  "tapply3 a b f g seq s =
     (case mapM_st (\<lambda>I. f (a ! I) (b ! I) I) seq s of (rs, s') \<Rightarrow> g rs s')"

definition apply_seq :: "'t list \<Rightarrow> ('t list \<Rightarrow> 'z) \<Rightarrow> nat list \<Rightarrow> 'z" where
  "apply_seq t f seq = f (map (\<lambda>J. t ! J) seq)"

definition for_each :: "'x list \<Rightarrow> ('x \<Rightarrow> 's \<Rightarrow> 's) \<Rightarrow> 's \<Rightarrow> 's" where
  "for_each t f s = fold f t s"

text \<open>
  \<^verbatim>\<open>Sm90TreeVisitor<NodeOp, ChildOps...>\<close> holds the callbacks of
  \<^verbatim>\<open>Sm90VisitorImpl<ChildOps..., NodeOp>\<close>: the children first, the node last, so
  \<^verbatim>\<open>sizeof...(ChildOps)\<close> is one less than the length of \<^verbatim>\<open>callbacks_tuple\<close>.
\<close>

definition Sm90TreeVisitor_visit ::
  "('frg, 'st) Callbacks list \<Rightarrow> 'frg \<Rightarrow> c_int \<Rightarrow> c_int \<Rightarrow> c_int \<Rightarrow> 'st \<Rightarrow> 'frg \<times> 'st" where
  "Sm90TreeVisitor_visit callbacks_tuple frg_acc epi_v epi_m epi_n st =
     (let Rm1 = length callbacks_tuple - 1
      in tapply callbacks_tuple
           (\<lambda>child_callbacks. visit child_callbacks frg_acc epi_v epi_m epi_n [])
           (\<lambda>frg_inputs. visit (callbacks_tuple ! Rm1) frg_acc epi_v epi_m epi_n frg_inputs)
           (make_seq Rm1) st)"

text \<open>
  \<^verbatim>\<open>Sm90SplitTreeVisitor<InputTree, OutputTree, AuxOutTrees...>\<close> holds the callbacks of
  \<^verbatim>\<open>Sm90VisitorImpl<InputTree, AuxOutTrees..., OutputTree>\<close>, so
  \<^verbatim>\<open>sizeof...(AuxOutTrees)\<close> is two less than the length of \<^verbatim>\<open>callbacks_tuple\<close>. The results
  of the auxiliary trees are dropped.
\<close>

definition Sm90SplitTreeVisitor_visit ::
  "('frg, 'st) Callbacks list \<Rightarrow> 'frg \<Rightarrow> c_int \<Rightarrow> c_int \<Rightarrow> c_int \<Rightarrow> 'st \<Rightarrow> 'frg \<times> 'st" where
  "Sm90SplitTreeVisitor_visit callbacks_tuple frg_acc epi_v epi_m epi_n st =
     (let (frg_input, st) = visit (callbacks_tuple ! 0) frg_acc epi_v epi_m epi_n [] st;
          Rm2 = length callbacks_tuple - 2;
          st = for_each (make_seq Rm2)
                 (\<lambda>I st. snd (visit (callbacks_tuple ! (I + 1)) frg_input epi_v epi_m epi_n [] st))
                 st
      in visit (callbacks_tuple ! (Rm2 + 1)) frg_input epi_v epi_m epi_n [] st)"

text \<open>
  \<^verbatim>\<open>Sm90TopologicalVisitor<ElementCompute, EdgeTuple, Ops...>\<close>. The converter
  \<^verbatim>\<open>NumericArrayConverter<ElementCompute, ElementOutput, FragmentSize>\<close> and the
  value-initialised \<^verbatim>\<open>Array<ElementCompute, FragmentSize>{}\<close> are not among the sources
  and are the parameters \<open>convert_output\<close> and \<open>frg_zero\<close>. The lambda of the transform
  assigns through the reference \<^verbatim>\<open>frg_compute\<close> to element \<open>I\<close> of
  \<^verbatim>\<open>frg_compute_tuple\<close>, which with the state of the thread is the state threaded through.
\<close>

definition Sm90TopologicalVisitor_visit ::
  "('frg \<Rightarrow> 'frg) \<Rightarrow> 'frg \<Rightarrow> nat list list \<Rightarrow> ('frg, 'st) Callbacks list \<Rightarrow>
   'frg \<Rightarrow> c_int \<Rightarrow> c_int \<Rightarrow> c_int \<Rightarrow> 'st \<Rightarrow> 'frg \<times> 'st" where
  "Sm90TopologicalVisitor_visit convert_output frg_zero EdgeTuple callbacks_tuple
       frg_acc epi_v epi_m epi_n st =
     (let Rm1 = length callbacks_tuple - 1;
          frg_compute_tuple = replicate Rm1 frg_zero
      in tapply3 EdgeTuple callbacks_tuple
           (\<lambda>edge_seq callbacks I (frg_compute_tuple, st).
              let (frg_compute, st) =
                    apply_seq frg_compute_tuple
                      (\<lambda>frg_inputs.
                         let (frg_output, st) =
                               visit callbacks frg_acc epi_v epi_m epi_n frg_inputs st
                         in (convert_output frg_output, st))
                      edge_seq
              in (frg_compute, (frg_compute_tuple[I := frg_compute], st)))
           (\<lambda>_ (frg_compute_tuple, st).
              apply_seq frg_compute_tuple
                (\<lambda>frg_inputs. visit (callbacks_tuple ! Rm1) frg_acc epi_v epi_m epi_n frg_inputs st)
                (EdgeTuple ! Rm1))
           (make_seq Rm1) (frg_compute_tuple, st))"

section \<open>Observing the workspace pointers\<close>

text \<open>
  \<open>workspace_as_params op\<close> is \<open>op\<close> with a \<^verbatim>\<open>to_underlying_arguments\<close> that returns the
  workspace pointer it is called with. Running the composite on such operations gives the
  pointers it hands to its children, and \<open>op_sizes\<close> are the sizes the children ask for.
\<close>

definition workspace_as_params ::
  "('shape, 'args, 'params, 'stream, 'adapter, 'dev) Op \<Rightarrow> ('shape, 'args, uint8_ptr, 'stream, 'adapter, 'dev) Op" where
  "workspace_as_params op =
     \<lparr>to_underlying_arguments = (\<lambda>_ _ workspace. workspace),
      can_implement = can_implement op,
      get_workspace_size = get_workspace_size op,
      initialize_workspace = initialize_workspace op\<rparr>"

definition op_workspaces ::
  "size_t \<Rightarrow> ('shape, 'args, 'params, 'stream, 'adapter, 'dev) Op list \<Rightarrow> 'shape \<Rightarrow> 'args list \<Rightarrow> uint8_ptr \<Rightarrow> uint8_ptr list" where
  "op_workspaces al ops problem_shape args workspace =
     Sm90VisitorImplBase_to_underlying_arguments al (map workspace_as_params ops)
       problem_shape args workspace"

definition op_sizes :: "('shape, 'args, 'params, 'stream, 'adapter, 'dev) Op list \<Rightarrow> 'shape \<Rightarrow> 'args list \<Rightarrow> size_t list" where
  "op_sizes ops problem_shape args =
     map (\<lambda>(op, op_args). get_workspace_size op problem_shape op_args) (zip ops args)"

text \<open>
  \<open>recording_op sz status\<close> is an operation for the examples: it asks for \<open>sz\<close> bytes, keeps
  its workspace pointer as its \<^verbatim>\<open>Params\<close> (as an operation that reduces into its workspace
  does), its \<^verbatim>\<open>initialize_workspace\<close> appends the pointer to the device state, a list, and
  returns \<open>status\<close>, and it can be implemented exactly when \<open>status\<close> is \<^verbatim>\<open>kSuccess\<close>.
\<close>

definition recording_op ::
  "size_t \<Rightarrow> Status \<Rightarrow> (unit, unit, uint8_ptr, unit, unit, uint8_ptr list) Op" where
  "recording_op sz status =
     \<lparr>to_underlying_arguments = (\<lambda>_ _ workspace. workspace),
      can_implement = (\<lambda>_ _. status = kSuccess),
      get_workspace_size = (\<lambda>_ _. sz),
      initialize_workspace = (\<lambda>_ _ workspace _ _ dev. (status, dev @ [workspace]))\<rparr>"

section \<open>The visitors as the specification words them\<close>

text \<open>
  The three functions of this section are written from the specification, to be compared
  with the visitors above. Chain tree: every child is visited on the accumulator fragment
  with no inputs, in declared order, and then the node is visited on the accumulator fragment
  with the children's outputs as its inputs.
\<close>

fun visit_children ::
  "('frg, 'st) Callbacks list \<Rightarrow> 'frg \<Rightarrow> c_int \<Rightarrow> c_int \<Rightarrow> c_int \<Rightarrow> 'st \<Rightarrow> 'frg list \<times> 'st" where
  "visit_children [] frg_acc epi_v epi_m epi_n st = ([], st)"
| "visit_children (child # children) frg_acc epi_v epi_m epi_n st =
     (case visit child frg_acc epi_v epi_m epi_n [] st of
        (frg, st1) \<Rightarrow>
          (case visit_children children frg_acc epi_v epi_m epi_n st1 of
             (frgs, st2) \<Rightarrow> (frg # frgs, st2)))"

definition tree_visit_spec ::
  "('frg, 'st) Callbacks list \<Rightarrow> ('frg, 'st) Callbacks \<Rightarrow> 'frg \<Rightarrow> c_int \<Rightarrow> c_int \<Rightarrow> c_int \<Rightarrow> 'st
   \<Rightarrow> 'frg \<times> 'st" where
  "tree_visit_spec children node frg_acc epi_v epi_m epi_n st =
     (case visit_children children frg_acc epi_v epi_m epi_n st of
        (frg_inputs, st') \<Rightarrow> visit node frg_acc epi_v epi_m epi_n frg_inputs st')"

text \<open>
  Split tree: the input tree is visited once on the accumulator fragment; its output is the
  fragment every auxiliary output tree and then the main output tree are visited on; the
  result is the main output tree's.
\<close>

fun visit_aux_outputs ::
  "('frg, 'st) Callbacks list \<Rightarrow> 'frg \<Rightarrow> c_int \<Rightarrow> c_int \<Rightarrow> c_int \<Rightarrow> 'st \<Rightarrow> 'st" where
  "visit_aux_outputs [] frg_input epi_v epi_m epi_n st = st"
| "visit_aux_outputs (aux # auxs) frg_input epi_v epi_m epi_n st =
     visit_aux_outputs auxs frg_input epi_v epi_m epi_n
       (snd (visit aux frg_input epi_v epi_m epi_n [] st))"

definition split_visit_spec ::
  "('frg, 'st) Callbacks \<Rightarrow> ('frg, 'st) Callbacks list \<Rightarrow> ('frg, 'st) Callbacks \<Rightarrow>
   'frg \<Rightarrow> c_int \<Rightarrow> c_int \<Rightarrow> c_int \<Rightarrow> 'st \<Rightarrow> 'frg \<times> 'st" where
  "split_visit_spec input_tree aux_out_trees output_tree frg_acc epi_v epi_m epi_n st =
     (case visit input_tree frg_acc epi_v epi_m epi_n [] st of
        (frg_input, st1) \<Rightarrow>
          visit output_tree frg_input epi_v epi_m epi_n []
            (visit_aux_outputs aux_out_trees frg_input epi_v epi_m epi_n st1))"

text \<open>
  Topological visitor: the operations but the last are visited in the given order; the
  inputs of each are the outputs computed so far that its edge sequence selects; each output
  is converted before it joins the outputs; the result is the visit of the last operation on
  the outputs its edge sequence selects. \<open>edges_topological\<close> says that the order is
  topological: every edge of operation \<open>I\<close> points to an operation before \<open>I\<close>.
\<close>

definition edges_topological :: "nat list list \<Rightarrow> bool" where
  "edges_topological EdgeTuple =
     list_all (\<lambda>(I, edge_seq). \<forall>J \<in> set edge_seq. J < I) (enumerate 0 EdgeTuple)"

fun visit_in_order ::
  "('frg \<Rightarrow> 'frg) \<Rightarrow> (nat list \<times> ('frg, 'st) Callbacks) list \<Rightarrow> 'frg \<Rightarrow> c_int \<Rightarrow> c_int \<Rightarrow> c_int \<Rightarrow>
   'frg list \<Rightarrow> 'st \<Rightarrow> 'frg list \<times> 'st" where
  "visit_in_order convert_output [] frg_acc epi_v epi_m epi_n outputs st = (outputs, st)"
| "visit_in_order convert_output ((edge_seq, callbacks) # rest) frg_acc epi_v epi_m epi_n outputs st =
     (case visit callbacks frg_acc epi_v epi_m epi_n (map (\<lambda>J. outputs ! J) edge_seq) st of
        (frg_output, st') \<Rightarrow>
          visit_in_order convert_output rest frg_acc epi_v epi_m epi_n
            (outputs @ [convert_output frg_output]) st')"

definition topological_visit_spec ::
  "('frg \<Rightarrow> 'frg) \<Rightarrow> nat list list \<Rightarrow> ('frg, 'st) Callbacks list \<Rightarrow>
   'frg \<Rightarrow> c_int \<Rightarrow> c_int \<Rightarrow> c_int \<Rightarrow> 'st \<Rightarrow> 'frg \<times> 'st" where
  "topological_visit_spec convert_output EdgeTuple callbacks_tuple frg_acc epi_v epi_m epi_n st =
     (case visit_in_order convert_output (zip (butlast EdgeTuple) (butlast callbacks_tuple))
             frg_acc epi_v epi_m epi_n [] st of
        (outputs, st') \<Rightarrow>
          visit (last callbacks_tuple) frg_acc epi_v epi_m epi_n
            (map (\<lambda>J. outputs ! J) (last EdgeTuple)) st')"

text \<open>
  \<open>logging_callbacks i\<close> are callbacks over integer fragments whose \<^verbatim>\<open>visit\<close> returns the
  sum of the accumulator fragment, its inputs and \<open>i\<close>, and appends \<open>i\<close> to the state, a list
  of the visits made so far.
\<close>

definition logging_callbacks :: "int \<Rightarrow> (int, int list) Callbacks" where
  "logging_callbacks i =
     \<lparr>visit = (\<lambda>frg_acc _ _ _ frg_inputs st. (frg_acc + sum_list frg_inputs + i, st @ [i]))\<rparr>"

section \<open>Workspace initialisation and layout as the specification words them\<close>

text \<open>
  Written from the specification: the children's initialisations run in declared order, the
  first status that is not \<^verbatim>\<open>kSuccess\<close> is returned at once, with the device as that child
  left it, and no later child runs; when all succeed the result is \<^verbatim>\<open>kSuccess\<close>.
\<close>

fun initialize_in_order :: "('dev \<Rightarrow> Status \<times> 'dev) list \<Rightarrow> 'dev \<Rightarrow> Status \<times> 'dev" where
  "initialize_in_order [] dev = (kSuccess, dev)"
| "initialize_in_order (init # inits) dev =
     (case init dev of
        (status, dev') \<Rightarrow>
          if status \<noteq> kSuccess then (status, dev') else initialize_in_order inits dev')"

text \<open>
  Written from the specification: a size rounded up to the alignment, over the natural
  numbers; the bytes of a region, as the set of their addresses (natural numbers, so that a
  region that would run past the last address is not wrapped around).
\<close>

definition round_up :: "nat \<Rightarrow> nat \<Rightarrow> nat" where
  "round_up n a = ((n + a - 1) div a) * a"

definition rounded_size_sum :: "size_t \<Rightarrow> size_t list \<Rightarrow> nat" where
  "rounded_size_sum al sizes = sum_list (map (\<lambda>sz. round_up (unat sz) (unat al)) sizes)"

definition region :: "uint8_ptr \<Rightarrow> size_t \<Rightarrow> nat set" where
  "region p n = {unat p ..< unat p + unat n}"

text \<open>
  The pointers that the lambdas of the primary template go through, in closed form: the
  pointer advances by the rounded size of each operation unless it is null.
\<close>

fun advance_workspaces ::
  "size_t \<Rightarrow> 'shape \<Rightarrow> (('shape, 'args, 'params, 'stream, 'adapter, 'dev) Op \<times> 'args) list \<Rightarrow>
   uint8_ptr \<Rightarrow> uint8_ptr list" where
  "advance_workspaces al sh [] p = []"
| "advance_workspaces al sh ((op, a) # oas) p =
     p # advance_workspaces al sh oas
           (if p \<noteq> 0 then p + round_nearest (get_workspace_size op sh a) al else p)"

text \<open>
  The pointers reached from \<open>p\<close> by the given steps: the first operation is at \<open>p\<close>, the
  next one step further. With the children's sizes as steps this is the layout the
  specialisations of \<^verbatim>\<open>to_underlying_arguments\<close> compute, with the rounded sizes the layout
  of the primary template on a workspace that is not null.
\<close>

fun workspaces_from :: "uint8_ptr \<Rightarrow> size_t list \<Rightarrow> uint8_ptr list" where
  "workspaces_from p [] = []"
| "workspaces_from p (g # gs) = p # workspaces_from (p + g) gs"

section \<open>Folds of booleans\<close>

lemma foldl_conj_iff: "foldl (\<and>) b xs \<longleftrightarrow> b \<and> (\<forall>x \<in> set xs. x)"
  by (induction xs arbitrary: b) auto

lemma foldl_disj_iff: "foldl (\<or>) b xs \<longleftrightarrow> b \<or> (\<exists>x \<in> set xs. x)"
  by (induction xs arbitrary: b) auto

lemma ImplBaseN_can_implement_iff:
  "ImplBaseN_can_implement ops sh args \<longleftrightarrow>
     (\<forall>(op, a) \<in> set (zip ops args). can_implement op sh a)"
  by (auto simp: ImplBaseN_can_implement_def transform_apply_def foldl_conj_iff)

lemma select_can_implement_iff:
  "select_can_implement sh oas \<longleftrightarrow> (\<forall>(op, a) \<in> set oas. can_implement op sh a)"
  by (cases "(sh, oas)" rule: select_can_implement.cases)
     (simp_all add: ImplBase1_can_implement_def ImplBase2_can_implement_def
        ImplBase3_can_implement_def ImplBase4_can_implement_def
        ImplBaseN_can_implement_iff zip_map_fst_snd)

section \<open>The visitors\<close>

lemma map_nth_prefix: "map (\<lambda>I. (xs @ ys) ! I) [0..<length xs] = xs"
proof -
  have "map (\<lambda>I. (xs @ ys) ! I) [0..<length xs] = map (\<lambda>I. xs ! I) [0..<length xs]"
    by (simp add: nth_append)
  then show ?thesis by (simp add: map_nth)
qed

lemma visit_children_mapM:
  "visit_children cs frg v m n st = mapM_st (\<lambda>c. visit c frg v m n []) cs st"
  by (induction cs arbitrary: st) (simp_all split: prod.splits)

lemma visit_aux_outputs_fold:
  "visit_aux_outputs auxs frg v m n st = fold (\<lambda>a s. snd (visit a frg v m n [] s)) auxs st"
  by (induction auxs arbitrary: st) simp_all

lemma fold_nth_prefix:
  "fold (\<lambda>I. f ((xs @ ys) ! I)) [0..<length xs] s = fold f xs s"
proof -
  have "fold (\<lambda>I. f ((xs @ ys) ! I)) [0..<length xs] s
      = fold f (map (\<lambda>I. (xs @ ys) ! I) [0..<length xs]) s"
    by (simp add: fold_map comp_def)
  then show ?thesis by (simp add: map_nth_prefix)
qed

lemma for_each_aux_outputs:
  "fold (\<lambda>I st. snd (visit ((auxs @ ys) ! I) frg v m n [] st)) [0..<length auxs] s =
     visit_aux_outputs auxs frg v m n s"
  using fold_nth_prefix [of "\<lambda>a st. snd (visit a frg v m n [] st)" auxs ys s]
  by (simp add: visit_aux_outputs_fold)

lemma edges_topologicalD:
  assumes "edges_topological E" "I < length E" "J \<in> set (E ! I)"
  shows "J < I"
proof -
  have "(I, E ! I) \<in> set (enumerate 0 E)"
    using assms(2) by (simp add: in_set_enumerate_eq)
  with assms(1) have "\<forall>J \<in> set (E ! I). J < I"
    unfolding edges_topological_def list_all_iff by blast
  with assms(3) show ?thesis by blast
qed

lemma topological_loop:
  assumes "edges_topological E" "R \<le> length E" "R \<le> length cbs" "k \<le> R" "length outs = k"
  shows "snd (mapM_st
           (\<lambda>I. (\<lambda>edge_seq callbacks I (frg_compute_tuple, st).
              let (frg_compute, st) =
                    apply_seq frg_compute_tuple
                      (\<lambda>frg_inputs.
                         let (frg_output, st) =
                               visit callbacks frg_acc epi_v epi_m epi_n frg_inputs st
                         in (convert_output frg_output, st))
                      edge_seq
              in (frg_compute, (frg_compute_tuple[I := frg_compute], st))) (E ! I) (cbs ! I) I)
           [k..<R] (outs @ replicate (R - k) z, st)) =
         visit_in_order convert_output (zip (drop k (take R E)) (drop k (take R cbs)))
           frg_acc epi_v epi_m epi_n outs st"
  using assms(4,5)
proof (induction "R - k" arbitrary: k outs st)
  case 0
  then show ?case by simp
next
  case (Suc d)
  then have kR: "k < R" by simp
  have up: "[k..<R] = k # [Suc k..<R]" using kR by (simp add: upt_conv_Cons)
  have inputs: "map (\<lambda>J. (outs @ replicate (R - k) z) ! J) (E ! k) = map (\<lambda>J. outs ! J) (E ! k)"
  proof (rule map_cong [OF refl])
    fix J assume "J \<in> set (E ! k)"
    then have "J < k" using edges_topologicalD [OF assms(1)] kR assms(2) by simp
    then show "(outs @ replicate (R - k) z) ! J = outs ! J"
      using Suc.prems by (simp add: nth_append)
  qed
  obtain out st1 where v: "visit (cbs ! k) frg_acc epi_v epi_m epi_n (map (\<lambda>J. outs ! J) (E ! k)) st = (out, st1)"
    by (cases "visit (cbs ! k) frg_acc epi_v epi_m epi_n (map (\<lambda>J. outs ! J) (E ! k)) st")
  have upd: "(outs @ replicate (R - k) z)[k := convert_output out] =
             (outs @ [convert_output out]) @ replicate (R - Suc k) z"
  proof -
    have "replicate (R - k) z = z # replicate (R - Suc k) z"
      using kR by (simp add: Suc_diff_Suc flip: replicate_Suc)
    then show ?thesis using Suc.prems by (simp add: list_update_append)
  qed
  have dE: "drop k (take R E) = E ! k # drop (Suc k) (take R E)"
    using kR assms(2) by (simp add: Cons_nth_drop_Suc [symmetric])
  have dC: "drop k (take R cbs) = cbs ! k # drop (Suc k) (take R cbs)"
    using kR assms(3) by (simp add: Cons_nth_drop_Suc [symmetric])
  have IH: "snd (mapM_st
           (\<lambda>I. (\<lambda>edge_seq callbacks I (frg_compute_tuple, st).
              let (frg_compute, st) =
                    apply_seq frg_compute_tuple
                      (\<lambda>frg_inputs.
                         let (frg_output, st) =
                               visit callbacks frg_acc epi_v epi_m epi_n frg_inputs st
                         in (convert_output frg_output, st))
                      edge_seq
              in (frg_compute, (frg_compute_tuple[I := frg_compute], st))) (E ! I) (cbs ! I) I)
           [Suc k..<R] ((outs @ [convert_output out]) @ replicate (R - Suc k) z, st1)) =
         visit_in_order convert_output (zip (drop (Suc k) (take R E)) (drop (Suc k) (take R cbs)))
           frg_acc epi_v epi_m epi_n (outs @ [convert_output out]) st1"
    using Suc.hyps(1) [of "Suc k" "outs @ [convert_output out]" st1] Suc.hyps(2) kR Suc.prems
    by simp
  show ?case
    unfolding up dE dC
    using IH
    by (auto simp: apply_seq_def inputs v upd split: prod.splits)
qed


section \<open>Initialisation in order\<close>

lemma advance_workspaces_length [simp]: "length (advance_workspaces al sh oas p) = length oas"
  by (induction oas arbitrary: p) auto

lemma snd_mapM_st_Cons: "snd (mapM_st f (x # xs) s) = snd (mapM_st f xs (snd (f x s)))"
  by (simp split: prod.splits)

lemma fst_mapM_st_Cons:
  "fst (mapM_st f (x # xs) s) = fst (f x s) # fst (mapM_st f xs (snd (f x s)))"
  by (simp split: prod.splits)

lemma ImplBaseN_initialize_workspace_in_order:
  fixes oas :: "(('shape, 'args, 'params, 'stream, 'adapter, 'dev) Op \<times> 'args) list"
  shows "ImplBaseN_initialize_workspace al (map fst oas) sh (map snd oas) ws stream adapter dev =
     initialize_in_order
       (map (\<lambda>((op, a), p). initialize_workspace op sh a p stream adapter)
          (zip oas (advance_workspaces al sh oas ws))) dev"
proof -
  define F :: "('shape, 'args, 'params, 'stream, 'adapter, 'dev) Op \<times> 'args \<Rightarrow>
      Status \<times> uint8_ptr \<times> 'dev \<Rightarrow> Status \<times> Status \<times> uint8_ptr \<times> 'dev"
    where "F = (\<lambda>(op, op_args) (status, op_workspace, dev).
          if status \<noteq> kSuccess then (status, (status, op_workspace, dev))
          else
            let (status, dev) =
                  initialize_workspace op sh op_args op_workspace stream adapter dev;
                op_workspace =
                  (if op_workspace \<noteq> 0
                   then op_workspace + round_nearest (get_workspace_size op sh op_args) al
                   else op_workspace)
            in (status, (status, op_workspace, dev)))"
  have unfold: "\<And>ws dev. ImplBaseN_initialize_workspace al (map fst oas) sh (map snd oas) ws stream adapter dev =
      (case snd (mapM_st F oas (kSuccess, ws, dev)) of (status, _, dev') \<Rightarrow> (status, dev'))"
    by (simp add: ImplBaseN_initialize_workspace_def transform_apply_st_def F_def zip_map_fst_snd
        split: prod.splits)
  have F_fail: "F oa (status, p, d) = (status, (status, p, d))" if "status \<noteq> kSuccess"
    for oa status p d
    using that by (simp add: F_def split: prod.splits)
  have F_ok: "F (op, a) (kSuccess, p, d) =
      (case initialize_workspace op sh a p stream adapter d of
         (status, d') \<Rightarrow>
           (status, (status,
              (if p \<noteq> 0 then p + round_nearest (get_workspace_size op sh a) al else p), d')))"
    for op a p d
    by (simp add: F_def split: prod.splits)
  have fail: "snd (mapM_st F xs (status, p, d)) = (status, p, d)" if "status \<noteq> kSuccess"
    for xs status p d
    using that by (induction xs) (simp_all add: F_fail snd_mapM_st_Cons del: mapM_st.simps(2))
  have main: "(case snd (mapM_st F xs (kSuccess, p, d)) of (status, _, d') \<Rightarrow> (status, d')) =
      initialize_in_order
        (map (\<lambda>((op, a), p). initialize_workspace op sh a p stream adapter)
           (zip xs (advance_workspaces al sh xs p))) d"
    for xs p d
  proof (induction xs arbitrary: p d)
    case Nil
    show ?case by simp
  next
    case (Cons x xs)
    obtain op a where x: "x = (op, a)" by (cases x)
    obtain status d' where r: "initialize_workspace op sh a p stream adapter d = (status, d')"
      by (cases "initialize_workspace op sh a p stream adapter d")
    let ?p' = "if p \<noteq> 0 then p + round_nearest (get_workspace_size op sh a) al else p"
    have step: "snd (mapM_st F (x # xs) (kSuccess, p, d)) = snd (mapM_st F xs (status, ?p', d'))"
      by (simp add: x F_ok r snd_mapM_st_Cons del: mapM_st.simps(2))
    show ?case
    proof (cases "status = kSuccess")
      case True
      with Cons.IH [of ?p' d'] step r show ?thesis by (simp add: x)
    next
      case False
      with fail [OF False, of xs ?p' d'] step r show ?thesis by (simp add: x)
    qed
  qed
  show ?thesis by (simp only: unfold main)
qed

lemma tuple_arity_cases:
  obtains (empty) "xs = []"
  | (one) x0 where "xs = [x0]"
  | (two) x0 x1 where "xs = [x0, x1]"
  | (three) x0 x1 x2 where "xs = [x0, x1, x2]"
  | (four) x0 x1 x2 x3 where "xs = [x0, x1, x2, x3]"
  | (more) x0 x1 x2 x3 x4 rest where "xs = x0 # x1 # x2 # x3 # x4 # rest"
proof (cases xs)
  case Nil
  then show ?thesis by (rule empty)
next
  case c0: (Cons x0 r0)
  show ?thesis
  proof (cases r0)
    case Nil
    with c0 show ?thesis by (simp add: one)
  next
    case c1: (Cons x1 r1)
    show ?thesis
    proof (cases r1)
      case Nil
      with c0 c1 show ?thesis by (simp add: two)
    next
      case c2: (Cons x2 r2)
      show ?thesis
      proof (cases r2)
        case Nil
        with c0 c1 c2 show ?thesis by (simp add: three)
      next
        case c3: (Cons x3 r3)
        show ?thesis
        proof (cases r3)
          case Nil
          with c0 c1 c2 c3 show ?thesis by (simp add: four)
        next
          case (Cons x4 r4)
          with c0 c1 c2 c3 show ?thesis by (simp add: more)
        qed
      qed
    qed
  qed
qed

lemma select_initialize_workspace_in_order:
  fixes oas :: "(('shape, 'args, 'params, 'stream, 'adapter, 'dev) Op \<times> 'args) list"
  shows "\<exists>workspaces. length workspaces = length oas \<and>
     select_initialize_workspace al sh oas ws stream adapter dev =
       initialize_in_order
         (map (\<lambda>((op, a), p). initialize_workspace op sh a p stream adapter)
            (zip oas workspaces)) dev"
proof (cases oas rule: tuple_arity_cases)
  case empty
  then show ?thesis
    using ImplBaseN_initialize_workspace_in_order [of al "[]" sh ws stream adapter dev]
    by simp
next
  case (one x0)
  obtain Op0 a0 where x: "x0 = (Op0, a0)" by (cases x0)
  show ?thesis
    unfolding one x
    by (rule exI [of _ "[ws]"])
       (simp add: ImplBase1_initialize_workspace_def Let_def split: prod.splits)
next
  case (two x0 x1)
  obtain Op0 a0 Op1 a1 where x: "x0 = (Op0, a0)" "x1 = (Op1, a1)"
    by (cases x0, cases x1)
  let ?o1 = "round_nearest (get_workspace_size Op0 sh a0) al"
  show ?thesis
    unfolding two x
    by (rule exI [of _ "[ws, ws + ?o1]"])
       (simp add: ImplBase2_initialize_workspace_def Let_def split: prod.splits)
next
  case (three x0 x1 x2)
  obtain Op0 a0 Op1 a1 Op2 a2 where x: "x0 = (Op0, a0)" "x1 = (Op1, a1)" "x2 = (Op2, a2)"
    by (cases x0, cases x1, cases x2)
  let ?o1 = "round_nearest (get_workspace_size Op0 sh a0) al"
  let ?o2 = "round_nearest (?o1 + get_workspace_size Op1 sh a1) al"
  show ?thesis
    unfolding three x
    by (rule exI [of _ "[ws, ws + ?o1, ws + ?o2]"])
       (simp add: ImplBase3_initialize_workspace_def Let_def split: prod.splits)
next
  case (four x0 x1 x2 x3)
  obtain Op0 a0 Op1 a1 Op2 a2 Op3 a3
    where x: "x0 = (Op0, a0)" "x1 = (Op1, a1)" "x2 = (Op2, a2)" "x3 = (Op3, a3)"
    by (cases x0, cases x1, cases x2, cases x3)
  let ?o1 = "round_nearest (get_workspace_size Op0 sh a0) al"
  let ?o2 = "round_nearest (?o1 + get_workspace_size Op1 sh a1) al"
  let ?o3 = "round_nearest (?o2 + get_workspace_size Op2 sh a2) al"
  show ?thesis
    unfolding four x
    by (rule exI [of _ "[ws, ws + ?o1, ws + ?o2, ws + ?o3]"])
       (simp add: ImplBase4_initialize_workspace_def Let_def split: prod.splits)
next
  case (more x0 x1 x2 x3 x4 rest)
  have "select_initialize_workspace al sh oas ws stream adapter dev =
      ImplBaseN_initialize_workspace al (map fst oas) sh (map snd oas) ws stream adapter dev"
    unfolding more by (cases x0; cases x1; cases x2; cases x3) simp
  then show ?thesis
    using ImplBaseN_initialize_workspace_in_order [of al oas sh ws stream adapter dev]
    by (intro exI [of _ "advance_workspaces al sh oas ws"]) simp
qed

section \<open>Rounding without wrap-around\<close>

lemma round_up_ge: "0 < a \<Longrightarrow> n \<le> round_up n a"
proof -
  assume a: "0 < a"
  have "n + a - 1 < ((n + a - 1) div a + 1) * a"
    using a by (metis Suc_eq_plus1 dividend_less_div_times mult.commute mult_Suc)
  then have "n + a - 1 < round_up n a + a" by (simp add: round_up_def algebra_simps)
  then show ?thesis using a by linarith
qed

lemma round_up_dvd: "a dvd round_up n a"
  by (simp add: round_up_def)

lemma round_up_add_multiple: "0 < a \<Longrightarrow> a dvd m \<Longrightarrow> round_up (m + n) a = m + round_up n a"
proof -
  assume a: "0 < a" and "a dvd m"
  then obtain q where m: "m = q * a" by (auto simp: dvd_def mult.commute)
  have "q * a + n + a - 1 = (n + a - 1) + q * a" using a by simp
  then have "(q * a + n + a - 1) div a = (n + a - 1) div a + q"
    using a by (simp only: div_mult_self1 div_mult_self3) 
  then show ?thesis by (simp add: round_up_def m algebra_simps)
qed

lemma round_up_below_pow2:
  assumes "k \<le> N" "round_up n (2 ^ k) < 2 ^ N"
  shows "n + 2 ^ k - 1 < (2::nat) ^ N"
proof -
  let ?a = "(2::nat) ^ k"
  let ?m = "(n + ?a - 1) div ?a"
  have N: "(2::nat) ^ N = 2 ^ (N - k) * ?a"
    using assms(1) by (simp flip: power_add)
  have "?m * ?a < 2 ^ (N - k) * ?a" using assms(2) N by (simp add: round_up_def)
  then have "?m < 2 ^ (N - k)" by simp
  then have "(?m + 1) * ?a \<le> 2 ^ (N - k) * ?a"
    by (intro mult_le_mono1) simp
  moreover have "n + ?a - 1 < (?m + 1) * ?a"
    by (metis Suc_eq_plus1 dividend_less_div_times mult.commute mult_Suc zero_less_numeral zero_less_power)
  ultimately show ?thesis using N by linarith
qed

lemma unat_pow2: "k < 64 \<Longrightarrow> unat ((2::size_t) ^ k) = 2 ^ k"
proof -
  assume k: "k < 64"
  have "(2::size_t) ^ k = of_nat (2 ^ k)" by simp
  then have "unat ((2::size_t) ^ k) = (2 ^ k) mod 2 ^ 64"
    by (simp only: unat_of_nat) simp
  moreover have "(2::nat) ^ k < 2 ^ 64" using k by (intro power_strict_increasing) simp_all
  ultimately show ?thesis by simp
qed

lemma unat_round_nearest:
  fixes d :: size_t
  assumes "k < 64" "round_up (unat d) (2 ^ k) < 2 ^ 64"
  shows "unat (round_nearest d (2 ^ k)) = round_up (unat d) (2 ^ k)"
proof -
  let ?al = "(2::size_t) ^ k"
  have ua: "unat ?al = 2 ^ k" using assms(1) by (rule unat_pow2)
  have al0: "?al \<noteq> 0" using ua by (metis power_not_zero unat_0 zero_neq_numeral)
  have ua1: "unat (?al - 1) = 2 ^ k - 1" using al0 ua by (simp add: unat_minus_one)
  have lt: "unat d + 2 ^ k - 1 < (2::nat) ^ 64"
    using round_up_below_pow2 [of k 64 "unat d"] assms by simp
  have eq: "d + ?al - 1 = d + (?al - 1)" by simp
  have "unat (d + (?al - 1)) = unat d + unat (?al - 1)"
    using lt ua1 by (subst unat_add_lem [symmetric]) simp
  then have s: "unat (d + ?al - 1) = unat d + 2 ^ k - 1"
    unfolding eq ua1 by simp
  have q: "unat ((d + ?al - 1) div ?al) = (unat d + 2 ^ k - 1) div 2 ^ k"
    by (simp only: unat_div s ua)
  have "unat ((d + ?al - 1) div ?al * ?al) = unat ((d + ?al - 1) div ?al) * unat ?al"
    using assms(2) q ua by (subst unat_mult_lem [symmetric]) (simp add: round_up_def)
  then show ?thesis by (simp add: round_nearest_def q ua round_up_def)
qed

section \<open>The workspace layout\<close>

lemma workspaces_from_length [simp]: "length (workspaces_from p gs) = length gs"
  by (induction gs arbitrary: p) auto

lemma sum_list_take_mono:
  fixes xs :: "nat list"
  shows "m \<le> n \<Longrightarrow> sum_list (take m xs) \<le> sum_list (take n xs)"
proof -
  assume "m \<le> n"
  then have "take n xs = take m xs @ take (n - m) (drop m xs)"
    by (metis le_add_diff_inverse take_add)
  then show ?thesis by simp
qed

lemma sum_list_take_le:
  fixes xs :: "nat list"
  shows "sum_list (take n xs) \<le> sum_list xs"
  using sum_list_take_mono [of n "max n (length xs)" xs] by simp

lemma sum_list_take_Suc:
  fixes xs :: "nat list"
  shows "i < length xs \<Longrightarrow> sum_list (take (Suc i) xs) = sum_list (take i xs) + xs ! i"
  by (simp add: take_Suc_conv_app_nth)

lemma unat_workspaces_from:
  "unat p + sum_list (map unat gs) < 2 ^ 64 \<Longrightarrow> i < length gs \<Longrightarrow>
     unat (workspaces_from p gs ! i) = unat p + sum_list (take i (map unat gs))"
proof (induction gs arbitrary: p i)
  case Nil
  then show ?case by simp
next
  case (Cons g gs)
  show ?case
  proof (cases i)
    case 0
    then show ?thesis by simp
  next
    case (Suc i')
    have pg: "unat (p + g) = unat p + unat g"
      using Cons.prems(1) by (subst unat_add_lem [symmetric]) simp
    have "unat (workspaces_from (p + g) gs ! i') = unat (p + g) + sum_list (take i' (map unat gs))"
      using Cons.prems Suc pg by (intro Cons.IH) simp_all
    then show ?thesis using Suc pg by simp
  qed
qed

lemma workspaces_from_regions:
  assumes len: "length sizes = length gs"
    and le: "\<forall>i < length gs. unat (sizes ! i) \<le> unat (gs ! i)"
    and hi: "unat p + sum_list (map unat gs) \<le> hi" "hi < 2 ^ 64"
  shows "\<forall>i < length gs. unat p \<le> unat (workspaces_from p gs ! i) \<and>
           unat (workspaces_from p gs ! i) + unat (sizes ! i) \<le> hi"
    and "\<forall>i < length gs. \<forall>j < length gs. i < j \<longrightarrow>
           unat (workspaces_from p gs ! i) + unat (sizes ! i) \<le> unat (workspaces_from p gs ! j)"
proof -
  have lt: "unat p + sum_list (map unat gs) < 2 ^ 64" using hi by simp
  note at = unat_workspaces_from [OF lt]
  have next_le: "unat (workspaces_from p gs ! i) + unat (sizes ! i) \<le>
      unat p + sum_list (take (Suc i) (map unat gs))" if "i < length gs" for i
    using that at [of i] le by (simp add: sum_list_take_Suc)
  show "\<forall>i < length gs. unat p \<le> unat (workspaces_from p gs ! i) \<and>
           unat (workspaces_from p gs ! i) + unat (sizes ! i) \<le> hi"
  proof (intro allI impI conjI)
    fix i assume i: "i < length gs"
    show "unat p \<le> unat (workspaces_from p gs ! i)" using at [OF i] by simp
    have "sum_list (take (Suc i) (map unat gs)) \<le> sum_list (map unat gs)"
      by (rule sum_list_take_le)
    with next_le [OF i] hi(1)
    show "unat (workspaces_from p gs ! i) + unat (sizes ! i) \<le> hi" by linarith
  qed
  show "\<forall>i < length gs. \<forall>j < length gs. i < j \<longrightarrow>
           unat (workspaces_from p gs ! i) + unat (sizes ! i) \<le> unat (workspaces_from p gs ! j)"
  proof (intro allI impI)
    fix i j assume i: "i < length gs" and j: "j < length gs" and ij: "i < j"
    have "sum_list (take (Suc i) (map unat gs)) \<le> sum_list (take j (map unat gs))"
      using ij by (intro sum_list_take_mono) simp
    with next_le [OF i] at [OF j]
    show "unat (workspaces_from p gs ! i) + unat (sizes ! i) \<le> unat (workspaces_from p gs ! j)"
      by linarith
  qed
qed

lemma unat_round_nearest_al:
  fixes d :: size_t
  assumes "al = 2 ^ k" "k < 64" "round_up (unat d) (unat al) < 2 ^ 64"
  shows "unat (round_nearest d al) = round_up (unat d) (unat al)"
  using unat_round_nearest [of k d] assms by (simp add: unat_pow2)

lemma unat_al_pos: "al = (2::size_t) ^ k \<Longrightarrow> k < 64 \<Longrightarrow> 0 < unat al"
  by (simp add: unat_pow2)

lemma round_up_le_rounded_size_sum:
  "sz \<in> set sizes \<Longrightarrow> round_up (unat sz) (unat al) \<le> rounded_size_sum al sizes"
  unfolding rounded_size_sum_def
  by (intro member_le_sum_list) auto

lemma rounded_size_sum_Cons [simp]:
  "rounded_size_sum al (sz # sizes) = round_up (unat sz) (unat al) + rounded_size_sum al sizes"
  by (simp add: rounded_size_sum_def)

lemma rounded_size_sum_Nil [simp]: "rounded_size_sum al [] = 0"
  by (simp add: rounded_size_sum_def)

lemma sum_unat_le_rounded_size_sum:
  "0 < unat al \<Longrightarrow> sum_list (map unat sizes) \<le> rounded_size_sum al sizes"
  by (induction sizes) (auto intro: add_mono round_up_ge)

lemma foldl_round_nearest_unat:
  fixes x :: size_t
  assumes "al = 2 ^ k" "k < 64"
  shows "unat al dvd unat x \<Longrightarrow> unat x + rounded_size_sum al sizes < 2 ^ 64 \<Longrightarrow>
     unat (foldl (\<lambda>w sz. round_nearest (w + sz) al) x sizes) = unat x + rounded_size_sum al sizes"
proof (induction sizes arbitrary: x)
  case Nil
  then show ?case by simp
next
  case (Cons sz sizes)
  have a: "0 < unat al" using assms by (rule unat_al_pos)
  have lt: "unat x + round_up (unat sz) (unat al) < 2 ^ 64" using Cons.prems(2) by simp
  have "unat sz \<le> round_up (unat sz) (unat al)" using a by (rule round_up_ge)
  with lt have xs: "unat (x + sz) = unat x + unat sz"
    by (subst unat_add_lem [symmetric]) simp
  have ru: "round_up (unat x + unat sz) (unat al) = unat x + round_up (unat sz) (unat al)"
    using a Cons.prems(1) by (rule round_up_add_multiple)
  have step: "unat (round_nearest (x + sz) al) = unat x + round_up (unat sz) (unat al)"
    using unat_round_nearest_al [OF assms, of "x + sz"] lt by (simp add: xs ru)
  have dvd: "unat al dvd unat (round_nearest (x + sz) al)"
    unfolding step using Cons.prems(1) by (simp add: round_up_dvd)
  show ?case
    using Cons.IH [OF dvd] Cons.prems(2) by (simp add: step)
qed

lemma foldl_add_round_nearest_unat:
  fixes x :: size_t
  assumes "al = 2 ^ k" "k < 64"
  shows "unat x + rounded_size_sum al sizes < 2 ^ 64 \<Longrightarrow>
     unat (foldl (+) x (map (\<lambda>sz. round_nearest sz al) sizes)) = unat x + rounded_size_sum al sizes"
proof (induction sizes arbitrary: x)
  case Nil
  then show ?case by simp
next
  case (Cons sz sizes)
  have r: "unat (round_nearest sz al) = round_up (unat sz) (unat al)"
    using Cons.prems by (intro unat_round_nearest_al [OF assms]) simp
  have xs: "unat (x + round_nearest sz al) = unat x + round_up (unat sz) (unat al)"
    using Cons.prems r by (subst unat_add_lem [THEN iffD1]) simp_all
  show ?case
    using Cons.IH [of "x + round_nearest sz al"] Cons.prems by (simp add: xs)
qed

lemma select_get_workspace_size_unat:
  assumes "al = 2 ^ k" "k < 64"
    and "rounded_size_sum al (map (\<lambda>(op, a). get_workspace_size op sh a) oas) < 2 ^ 64"
  shows "unat (select_get_workspace_size al sh oas) =
     rounded_size_sum al (map (\<lambda>(op, a). get_workspace_size op sh a) oas)"
proof -
  let ?sizes = "map (\<lambda>(op, a). get_workspace_size op sh a) oas"
  have gen: "unat (ImplBaseN_get_workspace_size al (map fst oas) sh (map snd oas)) =
      rounded_size_sum al ?sizes"
  proof -
    have "ImplBaseN_get_workspace_size al (map fst oas) sh (map snd oas) =
        foldl (+) 0 (map (\<lambda>sz. round_nearest sz al) ?sizes)"
      by (simp add: ImplBaseN_get_workspace_size_def transform_apply_def zip_map_fst_snd
          comp_def case_prod_unfold)
    then show ?thesis
      using foldl_add_round_nearest_unat [OF assms(1,2), of 0 ?sizes] assms(3) by simp
  qed
  have spec: "unat (foldl (\<lambda>w sz. round_nearest (w + sz) al) 0 ?sizes) = rounded_size_sum al ?sizes"
    using foldl_round_nearest_unat [OF assms(1,2), of 0 ?sizes] assms(3) by simp
  show ?thesis
  proof (cases oas rule: tuple_arity_cases)
    case empty
    with gen show ?thesis by simp
  next
    case (one x0)
    with spec show ?thesis
      by (cases x0) (simp add: ImplBase1_get_workspace_size_def)
  next
    case (two x0 x1)
    with spec show ?thesis
      by (cases x0; cases x1) (simp add: ImplBase2_get_workspace_size_def)
  next
    case (three x0 x1 x2)
    with spec show ?thesis
      by (cases x0; cases x1; cases x2) (simp add: ImplBase3_get_workspace_size_def)
  next
    case (four x0 x1 x2 x3)
    with spec show ?thesis
      by (cases x0; cases x1; cases x2; cases x3) (simp add: ImplBase4_get_workspace_size_def)
  next
    case (more x0 x1 x2 x3 x4 rest)
    have "select_get_workspace_size al sh oas =
        ImplBaseN_get_workspace_size al (map fst oas) sh (map snd oas)"
      unfolding more by (cases x0; cases x1; cases x2; cases x3) simp
    with gen show ?thesis by simp
  qed
qed

lemma ImplBaseN_to_underlying_arguments_at:
  fixes oas :: "(('shape, 'args, 'params, 'stream, 'adapter, 'dev) Op \<times> 'args) list"
  shows "ImplBaseN_to_underlying_arguments al (map fst oas) sh (map snd oas) ws =
     map (\<lambda>((op, a), p). to_underlying_arguments op sh a p)
       (zip oas (advance_workspaces al sh oas ws))"
proof -
  define F :: "('shape, 'args, 'params, 'stream, 'adapter, 'dev) Op \<times> 'args \<Rightarrow>
      uint8_ptr \<Rightarrow> 'params \<times> uint8_ptr"
    where "F = (\<lambda>(op, op_args) op_workspace.
          let ret = to_underlying_arguments op sh op_args op_workspace;
              op_workspace =
                (if op_workspace \<noteq> 0
                 then op_workspace + round_nearest (get_workspace_size op sh op_args) al
                 else op_workspace)
          in (ret, op_workspace))"
  have unfold: "ImplBaseN_to_underlying_arguments al (map fst oas) sh (map snd oas) ws =
      fst (mapM_st F oas ws)"
    by (simp add: ImplBaseN_to_underlying_arguments_def transform_apply_st_def F_def
        zip_map_fst_snd split: prod.splits)
  have F_eq: "F (op, a) p =
      (to_underlying_arguments op sh a p,
       if p \<noteq> 0 then p + round_nearest (get_workspace_size op sh a) al else p)" for op a p
    by (simp add: F_def Let_def)
  have "fst (mapM_st F xs p) =
      map (\<lambda>((op, a), p). to_underlying_arguments op sh a p)
        (zip xs (advance_workspaces al sh xs p))" for xs p
  proof (induction xs arbitrary: p)
    case Nil
    show ?case by simp
  next
    case (Cons x xs)
    obtain op a where x: "x = (op, a)" by (cases x)
    show ?case
      by (simp add: x fst_mapM_st_Cons F_eq Cons.IH del: mapM_st.simps(2))
  qed
  with unfold show ?thesis by simp
qed

lemma workspace_as_params_simps [simp]:
  "to_underlying_arguments (workspace_as_params op) sh a p = p"
  "get_workspace_size (workspace_as_params op) = get_workspace_size op"
  by (simp_all add: workspace_as_params_def)

lemma advance_workspaces_probe:
  "advance_workspaces al sh (map (\<lambda>(op, a). (workspace_as_params op, a)) oas) p =
     advance_workspaces al sh oas p"
  by (induction oas arbitrary: p) auto

lemma probe_params_are_workspaces:
  "length ps = length oas \<Longrightarrow>
     map (\<lambda>((op, a), p). to_underlying_arguments op sh a p)
       (zip (map (\<lambda>(op, a). (workspace_as_params op, a)) oas) ps) = ps"
proof (induction oas arbitrary: ps)
  case Nil
  then show ?case by simp
next
  case (Cons oa oas)
  then obtain p ps' where ps: "ps = p # ps'" by (cases ps) auto
  with Cons show ?case by (cases oa) simp
qed

lemma select_workspaces_closed_form:
  fixes oas :: "(('shape, 'args, 'params, 'stream, 'adapter, 'dev) Op \<times> 'args) list"
  shows "select_to_underlying_arguments al sh (map (\<lambda>(op, a). (workspace_as_params op, a)) oas) ws =
     (if length oas \<in> {1, 2, 3, 4}
      then workspaces_from ws (map (\<lambda>(op, a). get_workspace_size op sh a) oas)
      else advance_workspaces al sh oas ws)"
proof (cases oas rule: tuple_arity_cases)
  case empty
  then show ?thesis
    using ImplBaseN_to_underlying_arguments_at [of al "[]" sh ws] by simp
next
  case (one x0)
  then show ?thesis
    by (cases x0) (simp add: ImplBase1_to_underlying_arguments_def)
next
  case (two x0 x1)
  then show ?thesis
    by (cases x0; cases x1)
       (simp add: ImplBase2_to_underlying_arguments_def Let_def)
next
  case (three x0 x1 x2)
  then show ?thesis
    by (cases x0; cases x1; cases x2)
       (simp add: ImplBase3_to_underlying_arguments_def Let_def)
next
  case (four x0 x1 x2 x3)
  then show ?thesis
    by (cases x0; cases x1; cases x2; cases x3)
       (simp add: ImplBase4_to_underlying_arguments_def Let_def)
next
  case (more x0 x1 x2 x3 x4 rest)
  let ?P = "map (\<lambda>(op, a). (workspace_as_params op, a)) oas"
  have "select_to_underlying_arguments al sh ?P ws =
      ImplBaseN_to_underlying_arguments al (map fst ?P) sh (map snd ?P) ws"
    unfolding more by (cases x0; cases x1; cases x2; cases x3) simp
  also have "\<dots> = map (\<lambda>((op, a), p). to_underlying_arguments op sh a p)
       (zip ?P (advance_workspaces al sh ?P ws))"
    by (rule ImplBaseN_to_underlying_arguments_at)
  also have "\<dots> = advance_workspaces al sh oas ws"
    unfolding advance_workspaces_probe by (rule probe_params_are_workspaces) simp
  finally show ?thesis using more by simp
qed

lemma op_workspaces_select:
  "op_workspaces al ops sh args ws =
     select_to_underlying_arguments al sh
       (map (\<lambda>(op, a). (workspace_as_params op, a)) (zip ops args)) ws"
  by (simp add: op_workspaces_def Sm90VisitorImplBase_to_underlying_arguments_def zip_map1)

lemma op_workspaces_length [simp]:
  "length (op_workspaces al ops sh args ws) = length (zip ops args)"
  unfolding op_workspaces_select select_workspaces_closed_form by simp

lemma advance_workspaces_from:
  assumes "al = 2 ^ k" "k < 64"
  shows "p \<noteq> 0 \<Longrightarrow>
     unat p + rounded_size_sum al (map (\<lambda>(op, a). get_workspace_size op sh a) oas) < 2 ^ 64 \<Longrightarrow>
     advance_workspaces al sh oas p =
       workspaces_from p (map (\<lambda>(op, a). round_nearest (get_workspace_size op sh a) al) oas)"
proof (induction oas arbitrary: p)
  case Nil
  show ?case by simp
next
  case (Cons oa oas)
  obtain op a where oa: "oa = (op, a)" by (cases oa)
  let ?g = "round_nearest (get_workspace_size op sh a) al"
  have r: "unat ?g = round_up (unat (get_workspace_size op sh a)) (unat al)"
    using Cons.prems(2) by (intro unat_round_nearest_al [OF assms]) (simp add: oa)
  have pg: "unat (p + ?g) = unat p + unat ?g"
    using Cons.prems(2) r by (subst unat_add_lem [symmetric]) (simp add: oa)
  have "0 < unat p" using Cons.prems(1) by (simp add: unat_gt_0)
  then have "0 < unat (p + ?g)" using pg by simp
  then have nz: "p + ?g \<noteq> 0" by (simp add: unat_gt_0)
  have "advance_workspaces al sh oas (p + ?g) =
      workspaces_from (p + ?g)
        (map (\<lambda>(op, a). round_nearest (get_workspace_size op sh a) al) oas)"
    using Cons.prems(2) pg r by (intro Cons.IH [OF nz]) (simp add: oa)
  then show ?case using Cons.prems(1) by (simp add: oa)
qed

lemma unat_rounded_gaps:
  assumes "al = 2 ^ k" "k < 64"
    and "rounded_size_sum al sizes < 2 ^ 64"
  shows "map unat (map (\<lambda>sz. round_nearest sz al) sizes) =
     map (\<lambda>sz. round_up (unat sz) (unat al)) sizes"
proof -
  have "unat (round_nearest sz al) = round_up (unat sz) (unat al)" if "sz \<in> set sizes" for sz
    using round_up_le_rounded_size_sum [OF that, of al] assms(3)
    by (intro unat_round_nearest_al [OF assms(1,2)]) simp
  then show ?thesis by simp
qed

lemma select_workspaces_gaps:
  fixes oas :: "(('shape, 'args, 'params, 'stream, 'adapter, 'dev) Op \<times> 'args) list"
  assumes "al = 2 ^ k" "k < 64" "ws \<noteq> 0"
    and "unat ws + rounded_size_sum al (map (\<lambda>(op, a). get_workspace_size op sh a) oas) < 2 ^ 64"
  shows "\<exists>gs. length gs = length oas \<and>
     select_to_underlying_arguments al sh (map (\<lambda>(op, a). (workspace_as_params op, a)) oas) ws =
       workspaces_from ws gs \<and>
     (\<forall>i < length oas. unat (map (\<lambda>(op, a). get_workspace_size op sh a) oas ! i) \<le> unat (gs ! i)) \<and>
     sum_list (map unat gs) \<le>
       rounded_size_sum al (map (\<lambda>(op, a). get_workspace_size op sh a) oas)"
proof -
  let ?sizes = "map (\<lambda>(op, a). get_workspace_size op sh a) oas"
  have a: "0 < unat al" using assms(1,2) by (rule unat_al_pos)
  show ?thesis
  proof (cases "length oas \<in> {1, 2, 3, 4}")
    case True
    then have cf: "select_to_underlying_arguments al sh
        (map (\<lambda>(op, a). (workspace_as_params op, a)) oas) ws = workspaces_from ws ?sizes"
      by (simp add: select_workspaces_closed_form)
    have "sum_list (map unat ?sizes) \<le> rounded_size_sum al ?sizes"
      by (rule sum_unat_le_rounded_size_sum [OF a])
    with cf show ?thesis
      by (intro exI [of _ ?sizes]) simp
  next
    case False
    let ?gs = "map (\<lambda>sz. round_nearest sz al) ?sizes"
    have gs: "map unat ?gs = map (\<lambda>sz. round_up (unat sz) (unat al)) ?sizes"
      using assms(4) by (intro unat_rounded_gaps [OF assms(1,2)]) simp
    have le: "unat (?sizes ! i) \<le> unat (?gs ! i)" if "i < length oas" for i
    proof -
      have "unat (?gs ! i) = map unat ?gs ! i" using that by simp
      also have "\<dots> = round_up (unat (?sizes ! i)) (unat al)"
        unfolding gs using that by simp
      finally show ?thesis using round_up_ge [OF a, of "unat (?sizes ! i)"] by simp
    qed
    have "advance_workspaces al sh oas ws = workspaces_from ws ?gs"
      using advance_workspaces_from [OF assms(1,2,3,4)] by (simp add: comp_def case_prod_unfold)
    with False have cf: "select_to_underlying_arguments al sh
        (map (\<lambda>(op, a). (workspace_as_params op, a)) oas) ws = workspaces_from ws ?gs"
      by (simp add: select_workspaces_closed_form)
    have "sum_list (map unat ?gs) \<le> rounded_size_sum al ?sizes"
      unfolding gs by (simp add: rounded_size_sum_def)
    with cf le show ?thesis
      by (intro exI [of _ ?gs]) simp
  qed
qed

lemma region_subset:
  "unat ws \<le> unat p \<Longrightarrow> unat p + unat n \<le> unat ws + unat tot \<Longrightarrow>
     region p n \<subseteq> region ws tot"
  by (auto simp: region_def)

lemma region_disjoint:
  "unat p + unat n \<le> unat q \<or> unat q + unat m \<le> unat p \<Longrightarrow> region p n \<inter> region q m = {}"
  by (auto simp: region_def)

lemma region_empty [simp]: "region p 0 = {}"
  by (simp add: region_def)

lemma select_to_underlying_arguments_at_workspaces:
  fixes oas :: "(('shape, 'args, 'params, 'stream, 'adapter, 'dev) Op \<times> 'args) list"
  shows "select_to_underlying_arguments al sh oas ws =
     map (\<lambda>((op, a), p). to_underlying_arguments op sh a p)
       (zip oas
          (select_to_underlying_arguments al sh
             (map (\<lambda>(op, a). (workspace_as_params op, a)) oas) ws))"
proof (cases oas rule: tuple_arity_cases)
  case empty
  then show ?thesis
    using ImplBaseN_to_underlying_arguments_at [of al "[]" sh ws] by simp
next
  case (one x0)
  then show ?thesis
    by (cases x0) (simp add: ImplBase1_to_underlying_arguments_def)
next
  case (two x0 x1)
  then show ?thesis
    by (cases x0; cases x1) (simp add: ImplBase2_to_underlying_arguments_def Let_def)
next
  case (three x0 x1 x2)
  then show ?thesis
    by (cases x0; cases x1; cases x2) (simp add: ImplBase3_to_underlying_arguments_def Let_def)
next
  case (four x0 x1 x2 x3)
  then show ?thesis
    by (cases x0; cases x1; cases x2; cases x3)
       (simp add: ImplBase4_to_underlying_arguments_def Let_def)
next
  case (more x0 x1 x2 x3 x4 rest)
  have "select_to_underlying_arguments al sh oas ws =
      ImplBaseN_to_underlying_arguments al (map fst oas) sh (map snd oas) ws"
    unfolding more by (cases x0; cases x1; cases x2; cases x3) simp
  moreover have "length oas \<notin> {1, 2, 3, 4}" using more by simp
  ultimately show ?thesis
    by (simp add: select_workspaces_closed_form ImplBaseN_to_underlying_arguments_at
        del: insert_iff)
qed

lemma to_underlying_arguments_at_op_workspaces:
  "Sm90VisitorImplBase_to_underlying_arguments al ops sh args ws =
     map (\<lambda>((op, a), p). to_underlying_arguments op sh a p)
       (zip (zip ops args) (op_workspaces al ops sh args ws))"
  unfolding op_workspaces_select Sm90VisitorImplBase_to_underlying_arguments_def
  by (rule select_to_underlying_arguments_at_workspaces)

lemma workspaces_from_shift:
  "map ((+) d) (workspaces_from p gs) = workspaces_from (d + p) gs"
  by (induction gs arbitrary: p) (simp_all add: add.assoc)

lemma advance_workspaces_not_null:
  "0 \<notin> set (advance_workspaces al sh oas p) \<Longrightarrow>
     advance_workspaces al sh oas p =
       workspaces_from p (map (\<lambda>(op, a). round_nearest (get_workspace_size op sh a) al) oas)"
  by (induction oas arbitrary: p) (auto split: if_splits)

lemma op_workspaces_offsets:
  fixes ops :: "('shape, 'args, 'params, 'stream, 'adapter, 'dev) Op list"
  assumes "0 \<notin> set (op_workspaces al ops sh args ws)"
  shows "op_workspaces al ops sh args ws =
     map (\<lambda>off. ws + off)
       (workspaces_from 0
          (if length (zip ops args) \<in> {1, 2, 3, 4} then op_sizes ops sh args
           else map (\<lambda>sz. round_nearest sz al) (op_sizes ops sh args)))"
proof (cases "length (zip ops args) \<in> {1, 2, 3, 4}")
  case True
  then show ?thesis
    unfolding op_workspaces_select select_workspaces_closed_form op_sizes_def
    by (simp add: workspaces_from_shift del: insert_iff)
next
  case False
  with assms have "0 \<notin> set (advance_workspaces al sh (zip ops args) ws)"
    unfolding op_workspaces_select select_workspaces_closed_form by simp
  from advance_workspaces_not_null [OF this] False show ?thesis
    unfolding op_workspaces_select select_workspaces_closed_form op_sizes_def
    by (simp add: workspaces_from_shift comp_def case_prod_unfold del: insert_iff)
qed

section \<open>Examples\<close>

text \<open>
  Three operations of which the second fails: the third is not initialised, and the device
  holds what the first two wrote.
\<close>

lemma initialize_workspace_stops_at_first_failure:
  "Sm90VisitorImplBase_initialize_workspace 16
     [recording_op 1 kSuccess, recording_op 20 (kError 7), recording_op 4 kSuccess]
     () [(), (), ()] 4096 () () [] = (kError 7, [4096, 4112])"
  by (simp add: Sm90VisitorImplBase_initialize_workspace_def ImplBase3_initialize_workspace_def
      recording_op_def round_nearest_def)

text \<open>
  Five operations, for which the primary template is taken: \<^verbatim>\<open>initialize_workspace\<close> and
  \<^verbatim>\<open>to_underlying_arguments\<close> hand out the same pointers, each size rounded up to 16.
\<close>

lemma primary_template_layouts_agree:
  "Sm90VisitorImplBase_initialize_workspace 16
     [recording_op 1 kSuccess, recording_op 20 kSuccess, recording_op 0 kSuccess,
      recording_op 4 kSuccess, recording_op 7 kSuccess]
     () [(), (), (), (), ()] 4096 () () [] = (kSuccess, [4096, 4112, 4144, 4144, 4160]) \<and>
   Sm90VisitorImplBase_to_underlying_arguments 16
     [recording_op 1 kSuccess, recording_op 20 kSuccess, recording_op 0 kSuccess,
      recording_op 4 kSuccess, recording_op 7 kSuccess]
     () [(), (), (), (), ()] 4096 = [4096, 4112, 4144, 4144, 4160] \<and>
   Sm90VisitorImplBase_get_workspace_size 16
     [recording_op 1 kSuccess, recording_op 20 kSuccess, recording_op 0 kSuccess,
      recording_op 4 kSuccess, recording_op 7 kSuccess]
     () [(), (), (), (), ()] = 80"
  by (simp add: Sm90VisitorImplBase_initialize_workspace_def
      Sm90VisitorImplBase_to_underlying_arguments_def Sm90VisitorImplBase_get_workspace_size_def
      ImplBaseN_initialize_workspace_def ImplBaseN_to_underlying_arguments_def
      ImplBaseN_get_workspace_size_def transform_apply_st_def transform_apply_def
      recording_op_def round_nearest_def)

section \<open>Claims\<close>

text \<open>
  C3. The composite \<^verbatim>\<open>can_implement\<close> of \<^verbatim>\<open>Sm90VisitorImplBase<Ops...>\<close> is true exactly
  when every child operation's \<^verbatim>\<open>can_implement\<close> is true on the problem shape and its own
  sub-arguments, whichever of the five templates the arity selects.
\<close>

theorem C3_can_implement_conjunction:
  "Sm90VisitorImplBase_can_implement ops problem_shape args \<longleftrightarrow>
     (\<forall>(op, op_args) \<in> set (zip ops args). can_implement op problem_shape op_args)"
  by (simp add: Sm90VisitorImplBase_can_implement_def select_can_implement_iff)

theorem C3_can_implement_conjunction_witness:
  "Sm90VisitorImplBase_can_implement [recording_op 1 kSuccess, recording_op 2 kSuccess] () [(), ()] \<and>
   \<not> Sm90VisitorImplBase_can_implement
        [recording_op 1 kSuccess, recording_op 2 (kError 1), recording_op 3 kSuccess] () [(), (), ()]"
  using C3_can_implement_conjunction [of "[recording_op 1 kSuccess, recording_op 2 kSuccess]" "()" "[(), ()]"]
    C3_can_implement_conjunction
      [of "[recording_op 1 kSuccess, recording_op 2 (kError 1), recording_op 3 kSuccess]" "()" "[(), (), ()]"]
  by (simp add: recording_op_def)

text \<open>
  C5. The composite \<^verbatim>\<open>is_producer_load_needed\<close> is true exactly when some child
  operation's is, and the composite \<^verbatim>\<open>is_C_load_needed\<close> is true exactly when some child
  operation's is.
\<close>

theorem C5_load_queries_disjunction:
  "(Sm90VisitorImpl_is_producer_load_needed ops \<longleftrightarrow> (\<exists>op \<in> set ops. is_producer_load_needed op)) \<and>
   (Sm90VisitorImpl_is_C_load_needed ops \<longleftrightarrow> (\<exists>op \<in> set ops. is_C_load_needed op))"
  by (simp add: Sm90VisitorImpl_is_producer_load_needed_def
      Sm90VisitorImpl_is_C_load_needed_def foldl_disj_iff)

theorem C5_load_queries_disjunction_witness:
  "Sm90VisitorImpl_is_producer_load_needed
     [\<lparr>is_producer_load_needed = False, is_C_load_needed = False\<rparr>,
      \<lparr>is_producer_load_needed = True, is_C_load_needed = False\<rparr>] \<and>
   \<not> Sm90VisitorImpl_is_C_load_needed
     [\<lparr>is_producer_load_needed = False, is_C_load_needed = False\<rparr>,
      \<lparr>is_producer_load_needed = True, is_C_load_needed = False\<rparr>]"
  using C5_load_queries_disjunction
    [of "[\<lparr>is_producer_load_needed = False, is_C_load_needed = False\<rparr>,
          \<lparr>is_producer_load_needed = True, is_C_load_needed = False\<rparr>]"]
  by simp

text \<open>
  C10. If every child operation that needs the load of C also needs the producer load, then
  so does the composite: a true \<^verbatim>\<open>is_C_load_needed\<close> of the composite implies a true
  \<^verbatim>\<open>is_producer_load_needed\<close> of the composite.
\<close>

theorem C10_C_load_implies_producer_load:
  assumes "\<forall>op \<in> set ops. is_C_load_needed op \<longrightarrow> is_producer_load_needed op"
    and "Sm90VisitorImpl_is_C_load_needed ops"
  shows "Sm90VisitorImpl_is_producer_load_needed ops"
  using assms
  by (auto simp: Sm90VisitorImpl_is_producer_load_needed_def
      Sm90VisitorImpl_is_C_load_needed_def foldl_disj_iff)

theorem C10_C_load_implies_producer_load_witness:
  "Sm90VisitorImpl_is_C_load_needed
     [\<lparr>is_producer_load_needed = True, is_C_load_needed = True\<rparr>,
      \<lparr>is_producer_load_needed = True, is_C_load_needed = False\<rparr>] \<and>
   Sm90VisitorImpl_is_producer_load_needed
     [\<lparr>is_producer_load_needed = True, is_C_load_needed = True\<rparr>,
      \<lparr>is_producer_load_needed = True, is_C_load_needed = False\<rparr>]"
proof -
  let ?ops = "[\<lparr>is_producer_load_needed = True, is_C_load_needed = True\<rparr>,
               \<lparr>is_producer_load_needed = True, is_C_load_needed = False\<rparr>]"
  have h1: "\<forall>op \<in> set ?ops. is_C_load_needed op \<longrightarrow> is_producer_load_needed op"
    by simp
  have h2: "Sm90VisitorImpl_is_C_load_needed ?ops"
    by (simp add: Sm90VisitorImpl_is_C_load_needed_def)
  from C10_C_load_implies_producer_load [OF h1 h2] h2 show ?thesis
    by blast
qed

text \<open>
  C6. The visit of \<^verbatim>\<open>Sm90TreeVisitor\<close> on an accumulator fragment first visits every child
  on the fragment, in declared order and with no inputs, and then returns the visit of the
  node on the fragment with the children's outputs as its inputs.
\<close>

theorem C6_tree_visit_children_then_node:
  "Sm90TreeVisitor_visit (child_callbacks @ [node_callbacks]) frg_acc epi_v epi_m epi_n st =
     tree_visit_spec child_callbacks node_callbacks frg_acc epi_v epi_m epi_n st"
  by (simp add: Sm90TreeVisitor_visit_def tree_visit_spec_def tapply_def make_seq_def
      map_nth_prefix visit_children_mapM)

theorem C6_tree_visit_children_then_node_witness:
  "Sm90TreeVisitor_visit [logging_callbacks 1, logging_callbacks 2, logging_callbacks 3]
     10 0 0 0 [] = (36, [1, 2, 3])"
  using C6_tree_visit_children_then_node
    [of "[logging_callbacks 1, logging_callbacks 2]" "logging_callbacks 3" 10 0 0 0 "[]"]
  by (simp add: tree_visit_spec_def logging_callbacks_def)

text \<open>
  C7. The visit of \<^verbatim>\<open>Sm90SplitTreeVisitor\<close> visits the input tree once on the accumulator
  fragment, visits every auxiliary output tree and the main output tree on the fragment the
  input tree returned, and returns the result of the main output tree.
\<close>

theorem C7_split_visit_fans_out_input:
  "Sm90SplitTreeVisitor_visit (input_tree # aux_out_trees @ [output_tree])
       frg_acc epi_v epi_m epi_n st =
     split_visit_spec input_tree aux_out_trees output_tree frg_acc epi_v epi_m epi_n st"
  by (simp add: Sm90SplitTreeVisitor_visit_def split_visit_spec_def for_each_def make_seq_def
      Let_def for_each_aux_outputs split: prod.splits)

theorem C7_split_visit_fans_out_input_witness:
  "Sm90SplitTreeVisitor_visit [logging_callbacks 1, logging_callbacks 2, logging_callbacks 3]
     10 0 0 0 [] = (14, [1, 2, 3])"
  using C7_split_visit_fans_out_input
    [of "logging_callbacks 1" "[logging_callbacks 2]" "logging_callbacks 3" 10 0 0 0 "[]"]
  by (simp add: split_visit_spec_def logging_callbacks_def)

text \<open>
  C8. When the edges follow the topological order of the operations (one edge sequence per
  operation, each pointing to earlier operations only), the visit of
  \<^verbatim>\<open>Sm90TopologicalVisitor\<close> visits the operations in that order, gives each the converted
  outputs of the earlier operations that its edge sequence selects, and returns the visit of
  the last operation on the outputs that the last edge sequence selects.
\<close>

theorem C8_topological_visit_in_order:
  assumes "edges_topological EdgeTuple"
    and "length EdgeTuple = length callbacks_tuple"
    and "callbacks_tuple \<noteq> []"
  shows "Sm90TopologicalVisitor_visit convert_output frg_zero EdgeTuple callbacks_tuple
           frg_acc epi_v epi_m epi_n st =
         topological_visit_spec convert_output EdgeTuple callbacks_tuple frg_acc epi_v epi_m epi_n st"
proof -
  let ?R = "length callbacks_tuple - 1"
  have R: "?R \<le> length EdgeTuple" "?R \<le> length callbacks_tuple" using assms(2) by simp_all
  note loop = topological_loop [OF assms(1) R, of 0 "[]" frg_acc epi_v epi_m epi_n convert_output frg_zero st]
  obtain outs st' where vio: "visit_in_order convert_output (zip (take ?R EdgeTuple) (take ?R callbacks_tuple))
       frg_acc epi_v epi_m epi_n [] st = (outs, st')"
    by (cases "visit_in_order convert_output (zip (take ?R EdgeTuple) (take ?R callbacks_tuple))
       frg_acc epi_v epi_m epi_n [] st")
  have ne: "EdgeTuple \<noteq> []" using assms(2,3) by auto
  have lastE: "last EdgeTuple = EdgeTuple ! ?R" "last callbacks_tuple = callbacks_tuple ! ?R"
    using assms(2,3) ne by (simp_all add: last_conv_nth)
  show ?thesis
    unfolding Sm90TopologicalVisitor_visit_def topological_visit_spec_def tapply3_def make_seq_def Let_def
      butlast_conv_take lastE
    using loop vio
    by (auto simp: apply_seq_def assms(2) split: prod.splits)
qed

theorem C8_topological_visit_in_order_witness:
  "Sm90TopologicalVisitor_visit (\<lambda>frg. 2 * frg) 0 [ [], [0], [0, 1] ]
     [logging_callbacks 1, logging_callbacks 2, logging_callbacks 3] 10 0 0 0 [] =
   (103, [1, 2, 3])"
proof -
  have h1: "edges_topological [ [], [0], [0, 1] ]"
    by (simp add: edges_topological_def)
  have h2: "length [ [], [0], [0, 1::nat] ] =
      length [logging_callbacks 1, logging_callbacks 2, logging_callbacks 3]"
    by simp
  have h3: "[logging_callbacks 1, logging_callbacks 2, logging_callbacks 3] \<noteq> []"
    by simp
  show ?thesis
    unfolding C8_topological_visit_in_order [OF h1 h2 h3]
    by (simp add: topological_visit_spec_def logging_callbacks_def)
qed

text \<open>
  C4. \<^verbatim>\<open>initialize_workspace\<close> of \<^verbatim>\<open>Sm90VisitorImplBase<Ops...>\<close> runs the children's
  \<^verbatim>\<open>initialize_workspace\<close> in declared order, each on its own sub-arguments and on some
  workspace pointer; the first status that is not \<^verbatim>\<open>kSuccess\<close> is returned, no later
  child is run and the device is left as the failing child left it; when every child
  succeeds the result is \<^verbatim>\<open>kSuccess\<close>.
\<close>

theorem C4_initialize_workspace_fail_fast:
  "\<exists>workspaces. length workspaces = length (zip ops args) \<and>
     Sm90VisitorImplBase_initialize_workspace al ops problem_shape args workspace stream cuda_adapter dev =
       initialize_in_order
         (map (\<lambda>((op, op_args), op_workspace).
                 initialize_workspace op problem_shape op_args op_workspace stream cuda_adapter)
            (zip (zip ops args) workspaces)) dev"
  unfolding Sm90VisitorImplBase_initialize_workspace_def
  by (rule select_initialize_workspace_in_order)

text \<open>
  C1, at two operations that each ask for one byte, with the alignment 16 and a workspace
  at address 4096: \<^verbatim>\<open>get_workspace_size\<close> is 32 and \<^verbatim>\<open>initialize_workspace\<close> gives the
  second operation the pointer 4112, the first size rounded up, but
  \<^verbatim>\<open>to_underlying_arguments\<close> gives it the pointer 4097, the first size as it is.
\<close>

theorem C1_two_operations_layouts_differ:
  "Sm90VisitorImplBase_get_workspace_size 16
     [recording_op 1 kSuccess, recording_op 1 kSuccess] () [(), ()] = 32 \<and>
   Sm90VisitorImplBase_initialize_workspace 16
     [recording_op 1 kSuccess, recording_op 1 kSuccess] () [(), ()] 4096 () () [] =
     (kSuccess, [4096, 4112]) \<and>
   Sm90VisitorImplBase_to_underlying_arguments 16
     [recording_op 1 kSuccess, recording_op 1 kSuccess] () [(), ()] 4096 = [4096, 4097]"
  by (simp add: Sm90VisitorImplBase_get_workspace_size_def
      Sm90VisitorImplBase_initialize_workspace_def Sm90VisitorImplBase_to_underlying_arguments_def
      ImplBase2_get_workspace_size_def ImplBase2_initialize_workspace_def
      ImplBase2_to_underlying_arguments_def recording_op_def round_nearest_def)

text \<open>
  C2, amended. Let the alignment be a power of two, let the workspace pointer be null only
  if \<^verbatim>\<open>get_workspace_size\<close> is zero, and let the buffer end below the top of the address
  space when its size is counted without wrap-around, as the sum of the children's sizes
  each rounded up. Then the region that \<^verbatim>\<open>to_underlying_arguments\<close> gives to each child,
  from the pointer it hands to the child over the size that the child asks for, lies within
  the buffer of \<^verbatim>\<open>get_workspace_size\<close> bytes, and the regions of two different children
  are disjoint.
\<close>

theorem C2_regions_within_buffer_and_disjoint:

  fixes ops :: "('shape, 'args, 'params, 'stream, 'adapter, 'dev) Op list"
  assumes "al = 2 ^ k" "k < 64"
    and "workspace \<noteq> 0 \<or> Sm90VisitorImplBase_get_workspace_size al ops problem_shape args = 0"
    and "unat workspace + rounded_size_sum al (op_sizes ops problem_shape args) < 2 ^ 64"
  shows "(\<forall>i < length (zip ops args).
            region (op_workspaces al ops problem_shape args workspace ! i)
                   (op_sizes ops problem_shape args ! i)
            \<subseteq> region workspace (Sm90VisitorImplBase_get_workspace_size al ops problem_shape args)) \<and>
         (\<forall>i < length (zip ops args). \<forall>j < length (zip ops args). i \<noteq> j \<longrightarrow>
            region (op_workspaces al ops problem_shape args workspace ! i)
                   (op_sizes ops problem_shape args ! i) \<inter>
            region (op_workspaces al ops problem_shape args workspace ! j)
                   (op_sizes ops problem_shape args ! j) = {})"
proof -
  let ?oas = "zip ops args"
  let ?sizes = "map (\<lambda>(op, a). get_workspace_size op problem_shape a) ?oas"
  let ?total = "Sm90VisitorImplBase_get_workspace_size al ops problem_shape args"
  let ?ptrs = "op_workspaces al ops problem_shape args workspace"
  have sizes: "op_sizes ops problem_shape args = ?sizes" by (simp add: op_sizes_def)
  have rs: "rounded_size_sum al ?sizes < 2 ^ 64" using assms(4) by (simp add: sizes)
  have total: "unat ?total = rounded_size_sum al ?sizes"
    unfolding Sm90VisitorImplBase_get_workspace_size_def
    by (rule select_get_workspace_size_unat [OF assms(1,2) rs])
  show ?thesis
  proof (cases "workspace = 0")
    case True
    with assms(3) total have "rounded_size_sum al ?sizes = 0" by simp
    then have z: "?sizes ! i = 0" if "i < length ?oas" for i
    proof -
      have "?sizes ! i \<in> set ?sizes" using that by (intro nth_mem) simp
      from round_up_le_rounded_size_sum [OF this, of al] \<open>rounded_size_sum al ?sizes = 0\<close>
      have "round_up (unat (?sizes ! i)) (unat al) = 0" by simp
      with round_up_ge [OF unat_al_pos [OF assms(1,2)], of "unat (?sizes ! i)"]
      show ?thesis by (simp add: unat_eq_zero)
    qed
    show ?thesis unfolding sizes using z by simp
  next
    case False
    from select_workspaces_gaps [OF assms(1,2) False, of problem_shape ?oas] assms(4)
    obtain gs where gs: "length gs = length ?oas" "?ptrs = workspaces_from workspace gs"
      "\<forall>i < length ?oas. unat (?sizes ! i) \<le> unat (gs ! i)"
      "sum_list (map unat gs) \<le> rounded_size_sum al ?sizes"
      unfolding op_workspaces_select sizes by blast
    have len: "length ?sizes = length gs" using gs(1) by simp
    have le: "\<forall>i < length gs. unat (?sizes ! i) \<le> unat (gs ! i)" using gs(1,3) by simp
    have hi: "unat workspace + sum_list (map unat gs) \<le> unat workspace + unat ?total"
      using gs(4) total by simp
    have hi2: "unat workspace + unat ?total < 2 ^ 64" using assms(4) total sizes by simp
    note R = workspaces_from_regions [OF len le hi hi2]
    show ?thesis
    proof (intro conjI allI impI)
      fix i assume "i < length ?oas"
      then show "region (?ptrs ! i) (op_sizes ops problem_shape args ! i) \<subseteq> region workspace ?total"
        unfolding sizes gs(2) using R(1) gs(1) by (intro region_subset) simp_all
    next
      fix i j assume ij: "i < length ?oas" "j < length ?oas" "i \<noteq> j"
      then consider "i < j" | "j < i" by linarith
      then show "region (?ptrs ! i) (op_sizes ops problem_shape args ! i) \<inter>
            region (?ptrs ! j) (op_sizes ops problem_shape args ! j) = {}"
      proof cases
        case 1
        then show ?thesis
          unfolding sizes gs(2) using R(2) ij gs(1) by (intro region_disjoint disjI1) simp
      next
        case 2
        then show ?thesis
          unfolding sizes gs(2) using R(2) ij gs(1) by (intro region_disjoint disjI2) simp
      qed
    qed
  qed
qed

theorem C2_regions_within_buffer_and_disjoint_witness:
  "region (op_workspaces 16 [recording_op 1 kSuccess, recording_op 20 kSuccess, recording_op 0 kSuccess,
      recording_op 4 kSuccess, recording_op 7 kSuccess] () [(), (), (), (), ()] 4096 ! 4) (op_sizes [recording_op 1 kSuccess, recording_op 20 kSuccess, recording_op 0 kSuccess,
      recording_op 4 kSuccess, recording_op 7 kSuccess] () [(), (), (), (), ()] ! 4)
     \<subseteq> region 4096 (Sm90VisitorImplBase_get_workspace_size 16 [recording_op 1 kSuccess, recording_op 20 kSuccess, recording_op 0 kSuccess,
      recording_op 4 kSuccess, recording_op 7 kSuccess] () [(), (), (), (), ()]) \<and>
   region (op_workspaces 16 [recording_op 1 kSuccess, recording_op 20 kSuccess, recording_op 0 kSuccess,
      recording_op 4 kSuccess, recording_op 7 kSuccess] () [(), (), (), (), ()] 4096 ! 1) (op_sizes [recording_op 1 kSuccess, recording_op 20 kSuccess, recording_op 0 kSuccess,
      recording_op 4 kSuccess, recording_op 7 kSuccess] () [(), (), (), (), ()] ! 1) \<inter>
   region (op_workspaces 16 [recording_op 1 kSuccess, recording_op 20 kSuccess, recording_op 0 kSuccess,
      recording_op 4 kSuccess, recording_op 7 kSuccess] () [(), (), (), (), ()] 4096 ! 4) (op_sizes [recording_op 1 kSuccess, recording_op 20 kSuccess, recording_op 0 kSuccess,
      recording_op 4 kSuccess, recording_op 7 kSuccess] () [(), (), (), (), ()] ! 4) = {}"
proof -
  let ?ops = "[recording_op 1 kSuccess, recording_op 20 kSuccess, recording_op 0 kSuccess,
      recording_op 4 kSuccess, recording_op 7 kSuccess]"
  let ?args = "[(), (), (), (), ()]"
  have h1: "(16::size_t) = 2 ^ 4" by simp
  have h2: "(4::nat) < 64" by simp
  have h3: "(4096::uint8_ptr) \<noteq> 0 \<or> Sm90VisitorImplBase_get_workspace_size 16 ?ops () ?args = 0"
    by simp
  have h4: "unat (4096::uint8_ptr) + rounded_size_sum 16 (op_sizes ?ops () ?args) < 2 ^ 64"
    by (simp add: op_sizes_def rounded_size_sum_def round_up_def recording_op_def)
  note c = C2_regions_within_buffer_and_disjoint [OF h1 h2 h3 h4]
  have i4: "4 < length (zip ?ops ?args)" and i1: "1 < length (zip ?ops ?args)" by simp_all
  from c [THEN conjunct1, rule_format, OF i4]
       c [THEN conjunct2, rule_format, OF i1 i4]
  show ?thesis by simp
qed

text \<open>
  C2 as stated fails where the sum of the rounded sizes wraps around: two operations that
  ask for \<open>2 ^ 63\<close> bytes each make \<^verbatim>\<open>get_workspace_size\<close> zero, and the region of the first
  operation is not within a buffer of zero bytes.
\<close>

theorem C2_size_wraps_counterexample:

  "\<not> region
       (op_workspaces 16
          [recording_op 9223372036854775808 kSuccess, recording_op 9223372036854775808 kSuccess]
          () [(), ()] 4096 ! 0)
       (op_sizes
          [recording_op 9223372036854775808 kSuccess, recording_op 9223372036854775808 kSuccess]
          () [(), ()] ! 0)
     \<subseteq> region 4096
         (Sm90VisitorImplBase_get_workspace_size 16
            [recording_op 9223372036854775808 kSuccess, recording_op 9223372036854775808 kSuccess]
            () [(), ()])"
  by (simp add: op_workspaces_def op_sizes_def Sm90VisitorImplBase_to_underlying_arguments_def
      Sm90VisitorImplBase_get_workspace_size_def ImplBase2_get_workspace_size_def
      ImplBase2_to_underlying_arguments_def workspace_as_params_def recording_op_def
      round_nearest_def region_def)

text \<open>
  C9, amended. Two calls with the same problem shape and the same arguments, on the same
  workspace pointer or on two workspace buffers from which no child is handed a null
  pointer, give every child the same byte offset into its buffer: the \<^verbatim>\<open>Params\<close> of a
  child are its own \<^verbatim>\<open>to_underlying_arguments\<close> on the same sub-arguments and on the
  buffer's address plus that offset. The \<^verbatim>\<open>Params\<close> of the two calls are therefore equal
  up to the address of the buffer, and equal when the two workspace pointers are equal.
\<close>

theorem C9_params_equal_up_to_workspace_address:
  fixes ops :: "('shape, 'args, 'params, 'stream, 'adapter, 'dev) Op list"
  assumes "workspace1 = workspace2 \<or>
           0 \<notin> set (op_workspaces al ops problem_shape args workspace1) \<and>
           0 \<notin> set (op_workspaces al ops problem_shape args workspace2)"
  shows "\<exists>offsets. length offsets = length (zip ops args) \<and>
     Sm90VisitorImplBase_to_underlying_arguments al ops problem_shape args workspace1 =
       map (\<lambda>((op, op_args), offset). to_underlying_arguments op problem_shape op_args (workspace1 + offset))
         (zip (zip ops args) offsets) \<and>
     Sm90VisitorImplBase_to_underlying_arguments al ops problem_shape args workspace2 =
       map (\<lambda>((op, op_args), offset). to_underlying_arguments op problem_shape op_args (workspace2 + offset))
         (zip (zip ops args) offsets)"
proof (cases "workspace1 = workspace2")
  case True
  let ?offsets = "map (\<lambda>p. p - workspace1) (op_workspaces al ops problem_shape args workspace1)"
  have "Sm90VisitorImplBase_to_underlying_arguments al ops problem_shape args workspace1 =
       map (\<lambda>((op, op_args), offset). to_underlying_arguments op problem_shape op_args (workspace1 + offset))
         (zip (zip ops args) ?offsets)"
    unfolding to_underlying_arguments_at_op_workspaces [of al ops problem_shape args workspace1]
    by (simp add: zip_map2 case_prod_unfold)
  with True show ?thesis
    by (intro exI [of _ ?offsets]) simp
next
  case False
  with assms have nn: "0 \<notin> set (op_workspaces al ops problem_shape args workspace1)"
    "0 \<notin> set (op_workspaces al ops problem_shape args workspace2)" by simp_all
  let ?offsets = "workspaces_from 0
          (if length (zip ops args) \<in> {1, 2, 3, 4} then op_sizes ops problem_shape args
           else map (\<lambda>sz. round_nearest sz al) (op_sizes ops problem_shape args))"
  have len: "length ?offsets = length (zip ops args)" by (simp add: op_sizes_def)
  have at: "Sm90VisitorImplBase_to_underlying_arguments al ops problem_shape args ws =
       map (\<lambda>((op, op_args), offset). to_underlying_arguments op problem_shape op_args (ws + offset))
         (zip (zip ops args) ?offsets)"
    if "0 \<notin> set (op_workspaces al ops problem_shape args ws)" for ws
    unfolding to_underlying_arguments_at_op_workspaces [of al ops problem_shape args ws]
      op_workspaces_offsets [OF that]
    by (simp add: zip_map2 case_prod_unfold del: insert_iff)
  from len at [OF nn(1)] at [OF nn(2)] show ?thesis by blast
qed

theorem C9_params_equal_up_to_workspace_address_witness:
  "\<exists>offsets. length offsets = length (zip [recording_op 1 kSuccess, recording_op 20 kSuccess, recording_op 0 kSuccess,
      recording_op 4 kSuccess, recording_op 7 kSuccess] [(), (), (), (), ()]) \<and>
     Sm90VisitorImplBase_to_underlying_arguments 16 [recording_op 1 kSuccess, recording_op 20 kSuccess, recording_op 0 kSuccess,
      recording_op 4 kSuccess, recording_op 7 kSuccess] () [(), (), (), (), ()] 4096 =
       map (\<lambda>((op, op_args), offset). to_underlying_arguments op () op_args (4096 + offset))
         (zip (zip [recording_op 1 kSuccess, recording_op 20 kSuccess, recording_op 0 kSuccess,
      recording_op 4 kSuccess, recording_op 7 kSuccess] [(), (), (), (), ()]) offsets) \<and>
     Sm90VisitorImplBase_to_underlying_arguments 16 [recording_op 1 kSuccess, recording_op 20 kSuccess, recording_op 0 kSuccess,
      recording_op 4 kSuccess, recording_op 7 kSuccess] () [(), (), (), (), ()] 8192 =
       map (\<lambda>((op, op_args), offset). to_underlying_arguments op () op_args (8192 + offset))
         (zip (zip [recording_op 1 kSuccess, recording_op 20 kSuccess, recording_op 0 kSuccess,
      recording_op 4 kSuccess, recording_op 7 kSuccess] [(), (), (), (), ()]) offsets)"
proof -
  let ?ops = "[recording_op 1 kSuccess, recording_op 20 kSuccess, recording_op 0 kSuccess,
      recording_op 4 kSuccess, recording_op 7 kSuccess]"
  let ?args = "[(), (), (), (), ()]"
  have h1: "0 \<notin> set (op_workspaces 16 ?ops () ?args 4096)"
    by (simp add: op_workspaces_def Sm90VisitorImplBase_to_underlying_arguments_def
        ImplBaseN_to_underlying_arguments_def transform_apply_st_def workspace_as_params_def
        recording_op_def round_nearest_def)
  have h2: "0 \<notin> set (op_workspaces 16 ?ops () ?args 8192)"
    by (simp add: op_workspaces_def Sm90VisitorImplBase_to_underlying_arguments_def
        ImplBaseN_to_underlying_arguments_def transform_apply_st_def workspace_as_params_def
        recording_op_def round_nearest_def)
  from h1 h2 have h: "(4096::uint8_ptr) = 8192 \<or>
      0 \<notin> set (op_workspaces 16 ?ops () ?args 4096) \<and>
      0 \<notin> set (op_workspaces 16 ?ops () ?args 8192)"
    by blast
  show ?thesis
    by (rule C9_params_equal_up_to_workspace_address [OF h])
qed

text \<open>
  C9 as stated fails for an operation that keeps its workspace pointer in its \<^verbatim>\<open>Params\<close>:
  the same problem shape and arguments on two buffers of 16 bytes, at the addresses 4096 and
  8192, give different \<^verbatim>\<open>Params\<close>.
\<close>

theorem C9_two_buffers_counterexample:

  "Sm90VisitorImplBase_to_underlying_arguments 16 [recording_op 16 kSuccess] () [()] 4096 \<noteq>
   Sm90VisitorImplBase_to_underlying_arguments 16 [recording_op 16 kSuccess] () [()] 8192"
  by (simp add: Sm90VisitorImplBase_to_underlying_arguments_def
      ImplBase1_to_underlying_arguments_def recording_op_def)

end
